theory Spec2Isabelle
  imports Main "HOL-Library.Sublist" "HOL-Library.Word"
begin

section \<open>JavaScript values used by the token code\<close>

text \<open>
  The functions of \<^verbatim>\<open>src/did/transformers.ts\<close> (the DID key codec and the UCAN
  token codec and validator) work on JavaScript strings, numbers and plain objects.
  Strings are \<^typ>\<open>string\<close>; a value of type \<^verbatim>\<open>string | null\<close> or an optional
  parameter is a \<^typ>\<open>string option\<close> (\<open>None\<close> for \<^verbatim>\<open>null\<close> and \<^verbatim>\<open>undefined\<close>);
  the timestamps are whole seconds and are \<^typ>\<open>int\<close>. Every \<^verbatim>\<open>throw\<close> is
  a left injection of the sum type.
\<close>

text \<open>
  Modelled from the spec: the type \<^verbatim>\<open>KeyType\<close> of \<^verbatim>\<open>./types.js\<close>, which is not
  among the sources: a closed enumeration of algorithm tags with, at the least, the
  Edwards-curve signature and the RSA signature.
\<close>

datatype KeyType = Edwards | RSA

text \<open>
  A value that \<^verbatim>\<open>JSON.parse\<close> returns. A number is kept as an integer: all that is read
  from it here is whether it is zero. An object is the list of its members, each name
  once.
\<close>

datatype json =
    JNull
  | JBool bool
  | JNumber int
  | JString string
  | JArray "json list"
  | JObject "(string \<times> json) list"

datatype error =
    SyntaxError                 \<comment> \<open>raised by \<^verbatim>\<open>JSON.parse\<close> and by the byte codecs on bad text\<close>
  | TypeError                   \<comment> \<open>a string method called on \<^verbatim>\<open>undefined\<close>\<close>
  | KeyTypeNotSupported KeyType \<comment> \<open>\<^verbatim>\<open>Key type '...' not supported\<close>\<close>
  | NotBase58Did                \<comment> \<open>\<^verbatim>\<open>Please use a base58-encoded DID formatted `did:key:z...`\<close>\<close>
  | UnsupportedKeyAlgorithm     \<comment> \<open>no registered prefix matches\<close>
  | InvalidUCAN nat json        \<comment> \<open>\<^verbatim>\<open>Invalid UCAN (n levels deep): `ucan`\<close>, with the level and the value\<close>

text \<open>Truthiness of a \<^verbatim>\<open>string | null | undefined\<close>: only a non-empty string is truthy.\<close>

definition truthy :: "string option \<Rightarrow> bool" where
  "truthy v = (case v of None \<Rightarrow> False | Some s \<Rightarrow> s \<noteq> [])"

text \<open>\<^verbatim>\<open>a || null\<close> on such a value.\<close>

definition orNull :: "string option \<Rightarrow> string option" where
  "orNull v = (if truthy v then v else None)"

text \<open>\<^verbatim>\<open>a || b\<close> where \<open>b\<close> is a string.\<close>

definition orString :: "string option \<Rightarrow> string \<Rightarrow> string" where
  "orString v d = (case v of None \<Rightarrow> d | Some s \<Rightarrow> if s = [] then d else s)"

text \<open>\<^verbatim>\<open>a || b\<close> where \<open>a\<close> is an optional number: \<open>0\<close> is falsy.\<close>

definition orNumber :: "int option \<Rightarrow> int \<Rightarrow> int" where
  "orNumber v d = (case v of None \<Rightarrow> d | Some n \<Rightarrow> if n = 0 then d else n)"

text \<open>\<^verbatim>\<open>s.split(".")\<close>: the empty string gives one empty segment.\<close>

fun split_dot :: "string \<Rightarrow> string list" where
  "split_dot [] = ['''']"
| "split_dot (c # cs) =
     (if c = CHR ''.'' then [] # split_dot cs
      else (case split_dot cs of [] \<Rightarrow> [c # []] | s # ss \<Rightarrow> (c # s) # ss))"

text \<open>\<^verbatim>\<open>split[i]\<close>: reading past the end of an array gives \<^verbatim>\<open>undefined\<close>.\<close>

definition segment :: "string list \<Rightarrow> nat \<Rightarrow> string option" where
  "segment xs i = (if i < length xs then Some (xs ! i) else None)"

text \<open>
  Reading the property \<^verbatim>\<open>prf\<close> or \<^verbatim>\<open>iss\<close> of a parsed value: on \<^verbatim>\<open>null\<close> it throws
  a \<^verbatim>\<open>TypeError\<close>; an object gives the member of that name, or \<^verbatim>\<open>undefined\<close>
  (\<open>None\<close>) when it has none; a boolean, a number, a string and an array have no
  property of either name and give \<^verbatim>\<open>undefined\<close>.
\<close>

fun getProperty :: "json \<Rightarrow> string \<Rightarrow> error + json option" where
  "getProperty JNull name = Inl TypeError"
| "getProperty (JObject members) name = Inr (map_of members name)"
| "getProperty (JBool b) name = Inr None"
| "getProperty (JNumber n) name = Inr None"
| "getProperty (JString s) name = Inr None"
| "getProperty (JArray xs) name = Inr None"

text \<open>
  Truthiness of a value that may be \<^verbatim>\<open>undefined\<close>: \<^verbatim>\<open>undefined\<close>, \<^verbatim>\<open>null\<close>,
  \<^verbatim>\<open>false\<close>, zero and the empty string are falsy; every array and every object is
  truthy.
\<close>

fun truthyValue :: "json option \<Rightarrow> bool" where
  "truthyValue None = False"
| "truthyValue (Some JNull) = False"
| "truthyValue (Some (JBool b)) = b"
| "truthyValue (Some (JNumber n)) = (n \<noteq> 0)"
| "truthyValue (Some (JString s)) = (s \<noteq> [])"
| "truthyValue (Some (JArray xs)) = True"
| "truthyValue (Some (JObject members)) = True"

section \<open>The DID key codec\<close>

type_synonym byte = "8 word"

text \<open>
  \<^verbatim>\<open>publicKeyToDid\<close> and \<^verbatim>\<open>didToPublicKey\<close> call the package \<^verbatim>\<open>uint8arrays\<close>
  for the text encodings of byte arrays, and \<^verbatim>\<open>./util.js\<close> for the method prefix and
  the magic bytes. The encodings and the method prefix are parameters of the model.
\<close>

record codecs =
  fromBase64 :: "string \<Rightarrow> byte list option"     \<comment> \<open>\<^verbatim>\<open>uint8arrays.fromString(s, "base64")\<close>\<close>
  toBase64pad :: "byte list \<Rightarrow> string"            \<comment> \<open>\<^verbatim>\<open>uint8arrays.toString(b, "base64pad")\<close>\<close>
  fromBase58btc :: "string \<Rightarrow> byte list option"  \<comment> \<open>\<^verbatim>\<open>uint8arrays.fromString(s, "base58btc")\<close>\<close>
  toBase58btc :: "byte list \<Rightarrow> string"            \<comment> \<open>\<^verbatim>\<open>uint8arrays.toString(b, "base58btc")\<close>\<close>
  BASE58_DID_PREFIX :: string
  prefixTable :: "(KeyType \<times> byte list) list"

text \<open>
  Modelled from the spec: \<^verbatim>\<open>magicBytes\<close> of \<^verbatim>\<open>./util.js\<close>, which is not among the
  sources. It looks up the registered magic-byte prefix of an algorithm tag, and gives
  \<^verbatim>\<open>null\<close> when none is registered. The table itself is a parameter.
\<close>

definition magicBytes :: "codecs \<Rightarrow> KeyType \<Rightarrow> byte list option" where
  "magicBytes c ktype = map_of (prefixTable c) ktype"

text \<open>
  Modelled from the spec: \<^verbatim>\<open>parseMagicBytes\<close> of \<^verbatim>\<open>./util.js\<close>, which is not among
  the sources. It matches the leading bytes against the registered prefix table; they
  must match exactly one registered algorithm's prefix, and it fails when no
  registered prefix matches.
\<close>

definition parseMagicBytes :: "codecs \<Rightarrow> byte list \<Rightarrow> error + (byte list \<times> KeyType)" where
  "parseMagicBytes c prefixedKey =
     (case filter (\<lambda>(t, pre). prefix pre prefixedKey) (prefixTable c) of
        [(t, pre)] \<Rightarrow> Inr (drop (length pre) prefixedKey, t)
      | _ \<Rightarrow> Inl UnsupportedKeyAlgorithm)"

definition publicKeyToDid :: "codecs \<Rightarrow> string \<Rightarrow> KeyType \<Rightarrow> error + string" where
  "publicKeyToDid c publicKey ktype =
     (case fromBase64 c publicKey of
        None \<Rightarrow> Inl SyntaxError
      | Some pubKeyBuf \<Rightarrow>
          (case magicBytes c ktype of
             None \<Rightarrow> Inl (KeyTypeNotSupported ktype)
           | Some pre \<Rightarrow>
               let prefixedBuf = pre @ pubKeyBuf
               in Inr (BASE58_DID_PREFIX c @ toBase58btc c prefixedBuf)))"

definition didToPublicKey :: "codecs \<Rightarrow> string \<Rightarrow> error + (string \<times> KeyType)" where
  "didToPublicKey c did =
     (if \<not> prefix (BASE58_DID_PREFIX c) did then Inl NotBase58Did
      else
        let didWithoutPrefix = drop (length (BASE58_DID_PREFIX c)) did
        in (case fromBase58btc c didWithoutPrefix of
              None \<Rightarrow> Inl SyntaxError
            | Some magicalBuf \<Rightarrow>
                (case parseMagicBytes c magicalBuf of
                   Inl err \<Rightarrow> Inl err
                 | Inr (keyBuffer, ktype) \<Rightarrow> Inr (toBase64pad c keyBuffer, ktype))))"

section \<open>The UCAN token codec and validator\<close>

text \<open>
  Modelled from the spec: the type \<^verbatim>\<open>Resource\<close> of \<^verbatim>\<open>./types.js\<close>, which is not
  among the sources: a resource descriptor is the wildcard string \<^verbatim>\<open>"*"\<close> or a
  structured value. Both are truthy in JavaScript.
\<close>

datatype Resource = Wildcard | Scoped "(string \<times> string) list"

type_synonym Fact = "(string \<times> string) list"

record UcanHeader =
  alg :: string
  typ' :: string
  uav :: string

record UcanPayload =
  aud :: string
  exp :: int
  fct :: "Fact list"
  iss :: string
  nbf :: int
  prf' :: "string option"
  ptc :: string
  rsc :: Resource

record Ucan =
  header :: UcanHeader
  payload :: UcanPayload
  signature :: "string option"

text \<open>The named arguments of \<^verbatim>\<open>build\<close>; an omitted argument is \<open>None\<close>.\<close>

record BuildParams =
  addSignature :: "bool option"
  audience :: string
  facts :: "Fact list option"
  issuer :: "string option"
  lifetimeInSeconds :: "int option"
  expiration :: "int option"
  potency :: "string option"
  proofArg :: "string option"
  resource :: "Resource option"

text \<open>
  What the token code reads from its surroundings: the clock, the keystore, the
  caller's own DID, the signature verifier of \<^verbatim>\<open>../did/validation.js\<close>, the
  \<^verbatim>\<open>base64\<close> helpers of \<^verbatim>\<open>../common/index.js\<close> and \<^verbatim>\<open>JSON\<close>. None of them is
  among the sources; they are the fields of an environment. In \<^verbatim>\<open>decode\<close>,
  \<^verbatim>\<open>JSON.parse\<close> is read at the type the code declares for its result
  (\<^verbatim>\<open>UcanHeader\<close>, \<^verbatim>\<open>UcanPayload\<close>). \<^verbatim>\<open>rootIssuer\<close> reads two properties of whatever
  \<^verbatim>\<open>JSON.parse\<close> returns, and nothing checks that value: there \<^verbatim>\<open>JSON.parse\<close> is
  \<open>parseJSON\<close>, with a value of any shape. \<open>None\<close> is a thrown exception.
\<close>

record env =
  dateNow :: int                                              \<comment> \<open>\<^verbatim>\<open>Date.now()\<close>, in milliseconds\<close>
  keystoreAlg :: string                                       \<comment> \<open>\<^verbatim>\<open>crypto.keystore.getAlg()\<close>\<close>
  keystoreSign :: "string \<Rightarrow> string"                      \<comment> \<open>\<^verbatim>\<open>crypto.keystore.sign(msg, 8)\<close>\<close>
  didUcan :: string                                           \<comment> \<open>\<^verbatim>\<open>did.ucan()\<close>\<close>
  verifySignedData :: "string \<Rightarrow> string \<Rightarrow> string \<Rightarrow> bool"  \<comment> \<open>data, did, signature\<close>
  urlEncode :: "string \<Rightarrow> string"
  urlDecode :: "string \<Rightarrow> string option"
  makeUrlSafe :: "string \<Rightarrow> string"
  makeUrlUnsafe :: "string \<Rightarrow> string"
  stringifyHeader :: "UcanHeader \<Rightarrow> string"
  stringifyPayload :: "UcanPayload \<Rightarrow> string"
  parseHeader :: "string \<Rightarrow> UcanHeader option"
  parsePayload :: "string \<Rightarrow> UcanPayload option"
  parseJSON :: "string \<Rightarrow> json option"

text \<open>
  \<^verbatim>\<open>JSON.parse(base64.urlDecode(seg))\<close> for a segment \<open>seg\<close> read from the split array.
  Modelled from the spec: \<^verbatim>\<open>base64.urlDecode\<close> is not among the sources; a segment
  that does not decode as the URL-safe base64 encoding of a JSON object is a failure,
  and so is a missing segment (\<^verbatim>\<open>undefined\<close>, on which a string method is called).
\<close>

definition parseSegment :: "env \<Rightarrow> (string \<Rightarrow> 'a option) \<Rightarrow> string option \<Rightarrow> error + 'a" where
  "parseSegment e parse seg =
     (case seg of
        None \<Rightarrow> Inl TypeError
      | Some s \<Rightarrow>
          (case urlDecode e s of
             None \<Rightarrow> Inl SyntaxError
           | Some text \<Rightarrow>
               (case parse text of None \<Rightarrow> Inl SyntaxError | Some v \<Rightarrow> Inr v)))"

definition jwtAlgorithm :: "string \<Rightarrow> string option" where
  "jwtAlgorithm cryptoSystem =
     (if cryptoSystem = ''ed25519'' then Some ''EdDSA''
      else if cryptoSystem = ''rsa'' then Some ''RS256''
      else None)"

definition encodeHeader :: "env \<Rightarrow> UcanHeader \<Rightarrow> string" where
  "encodeHeader e h = urlEncode e (stringifyHeader e h)"

definition encodePayload :: "env \<Rightarrow> UcanPayload \<Rightarrow> string" where
  "encodePayload e p = urlEncode e (stringifyPayload e p)"

definition sign :: "env \<Rightarrow> UcanHeader \<Rightarrow> UcanPayload \<Rightarrow> string" where
  "sign e h p =
     (let encodedHeader = encodeHeader e h;
          encodedPayload = encodePayload e p
      in makeUrlSafe e (keystoreSign e (encodedHeader @ ''.'' @ encodedPayload)))"

definition decode :: "env \<Rightarrow> string \<Rightarrow> error + Ucan" where
  "decode e ucan =
     (let split = split_dot ucan
      in (case parseSegment e (parseHeader e) (segment split 0) of
            Inl err \<Rightarrow> Inl err
          | Inr h \<Rightarrow>
              (case parseSegment e (parsePayload e) (segment split 1) of
                 Inl err \<Rightarrow> Inl err
               | Inr p \<Rightarrow>
                   Inr \<lparr>header = h, payload = p, signature = orNull (segment split 2)\<rparr>)))"

text \<open>
  String concatenation with \<^verbatim>\<open>ucan.signature\<close>: JavaScript renders \<^verbatim>\<open>null\<close> as the
  text \<^verbatim>\<open>null\<close>.
\<close>

definition encode :: "env \<Rightarrow> Ucan \<Rightarrow> string" where
  "encode e ucan =
     (let encodedHeader = encodeHeader e (header ucan);
          encodedPayload = encodePayload e (payload ucan)
      in encodedHeader @ ''.'' @ encodedPayload @ ''.'' @
         (case signature ucan of None \<Rightarrow> ''null'' | Some s \<Rightarrow> s))"

text \<open>\<^verbatim>\<open>const decodedProof = proof && decode(proof)\<close>: a falsy proof is not decoded.\<close>

definition decodeProof :: "env \<Rightarrow> string option \<Rightarrow> error + Ucan option" where
  "decodeProof e prf =
     (case prf of
        None \<Rightarrow> Inr None
      | Some s \<Rightarrow>
          if s = [] then Inr None
          else (case decode e s of Inl err \<Rightarrow> Inl err | Inr u \<Rightarrow> Inr (Some u)))"

definition build :: "env \<Rightarrow> BuildParams \<Rightarrow> error + Ucan" where
  "build e ps =
     (let currentTimeInSeconds = dateNow e div 1000
      in (case decodeProof e (proofArg ps) of
            Inl err \<Rightarrow> Inl err
          | Inr decodedProof \<Rightarrow>
              let ksAlg = keystoreAlg e;
                  hdr = \<lparr>alg = (case jwtAlgorithm ksAlg of None \<Rightarrow> ''UnknownAlgorithm'' | Some a \<Rightarrow> a),
                         typ' = ''JWT'',
                         uav = ''1.0.0''\<rparr>;
                  exp0 = orNumber (expiration ps)
                           (currentTimeInSeconds +
                              (case lifetimeInSeconds ps of None \<Rightarrow> 30 | Some l \<Rightarrow> l));
                  nbf0 = currentTimeInSeconds - 60;
                  exp1 = (case decodedProof of None \<Rightarrow> exp0
                          | Some d \<Rightarrow> min (exp (payload d)) exp0);
                  nbf1 = (case decodedProof of None \<Rightarrow> nbf0
                          | Some d \<Rightarrow> max (nbf (payload d)) nbf0);
                  pl = \<lparr>aud = audience ps,
                        exp = exp1,
                        fct = (case facts ps of None \<Rightarrow> [] | Some fs \<Rightarrow> fs),
                        iss = orString (issuer ps) (didUcan e),
                        nbf = nbf1,
                        prf' = orNull (proofArg ps),
                        ptc = (case potency ps of None \<Rightarrow> ''APPEND'' | Some p \<Rightarrow> p),
                        rsc = (case resource ps of
                                 Some r \<Rightarrow> r
                               | None \<Rightarrow>
                                   (case decodedProof of
                                      Some d \<Rightarrow> rsc (payload d)
                                    | None \<Rightarrow> Wildcard))\<rparr>;
                  sig = (if (case addSignature ps of None \<Rightarrow> True | Some b \<Rightarrow> b)
                         then Some (sign e hdr pl) else None)
              in Inr \<lparr>header = hdr, payload = pl, signature = sig\<rparr>))"

definition isExpired :: "env \<Rightarrow> Ucan \<Rightarrow> bool" where
  "isExpired e ucan = (exp (payload ucan) \<le> dateNow e div 1000)"

text \<open>
  \<^verbatim>\<open>isValid\<close> calls itself on the decoded proof, and nothing in it bounds the number
  of calls: it is a partial function, and \<open>None\<close> stands for a call that never returns.
  A result \<open>Some (Inl err)\<close> is an exception thrown by \<^verbatim>\<open>decode\<close>.
\<close>

partial_function (option) isValid :: "env \<Rightarrow> Ucan \<Rightarrow> (error + bool) option" where
  "isValid e ucan =
     (let encodedHeader = encodeHeader e (header ucan);
          encodedPayload = encodePayload e (payload ucan);
          a = verifySignedData e (encodedHeader @ ''.'' @ encodedPayload)
                (iss (payload ucan))
                (makeUrlUnsafe e (orString (signature ucan) ''''))
      in if \<not> a then Some (Inr a)
         else if \<not> truthy (prf' (payload ucan)) then Some (Inr True)
         else (case decode e (the (prf' (payload ucan))) of
                 Inl err \<Rightarrow> Some (Inl err)
               | Inr prf \<Rightarrow>
                   let b = (aud (payload prf) = iss (payload ucan))
                   in if \<not> b then Some (Inr b) else isValid e prf))"

text \<open>
  \<^verbatim>\<open>extractPayload\<close> catches whatever is thrown inside its \<^verbatim>\<open>try\<close> and throws the
  error that carries the level: a missing segment, text that does not decode, text that
  \<^verbatim>\<open>JSON.parse\<close> rejects, and a value without a method \<^verbatim>\<open>split\<close> (the recursive
  call passes the property \<^verbatim>\<open>prf\<close>, which is a string only if the payload says so). It
  returns the parsed value as it is.
\<close>

definition extractPayload :: "env \<Rightarrow> json \<Rightarrow> nat \<Rightarrow> error + json" where
  "extractPayload e ucan level =
     (case ucan of
        JString s \<Rightarrow>
          (case parseSegment e (parseJSON e) (segment (split_dot s) 1) of
             Inl _ \<Rightarrow> Inl (InvalidUCAN level ucan)
           | Inr p \<Rightarrow> Inr p)
      | _ \<Rightarrow> Inl (InvalidUCAN level ucan))"

text \<open>
  \<^verbatim>\<open>rootIssuer\<close> reads \<^verbatim>\<open>p.prf\<close> and \<^verbatim>\<open>p.iss\<close> outside that \<^verbatim>\<open>try\<close>. Its result
  is the property \<^verbatim>\<open>iss\<close>, which is \<^verbatim>\<open>undefined\<close> (\<open>None\<close>) when the payload has none.
  The first call is on a string, \<open>JString s\<close>, at level 0.
\<close>

partial_function (option) rootIssuer :: "env \<Rightarrow> json \<Rightarrow> nat \<Rightarrow> (error + json option) option" where
  "rootIssuer e ucan level =
     (case extractPayload e ucan level of
        Inl err \<Rightarrow> Some (Inl err)
      | Inr p \<Rightarrow>
          (case getProperty p ''prf'' of
             Inl err \<Rightarrow> Some (Inl err)
           | Inr prf \<Rightarrow>
               if truthyValue prf then rootIssuer e (the prf) (level + 1)
               else (case getProperty p ''iss'' of
                       Inl err \<Rightarrow> Some (Inl err)
                     | Inr issValue \<Rightarrow> Some (Inr issValue))))"

section \<open>The byte encodings, for evaluation\<close>

text \<open>
  The package \<^verbatim>\<open>uint8arrays\<close> is outside the repository. To evaluate the key codec on
  concrete keys, here are the two encodings it is asked for: base64 as in RFC 4648
  (decoding accepts the text with or without its trailing \<open>=\<close> padding and rejects
  non-zero trailing bits; \<open>base64pad\<close> encoding pads), and base58 with the Bitcoin
  alphabet (a leading zero byte is the digit \<open>1\<close>).
\<close>

definition base64Alphabet :: string where
  "base64Alphabet = ''ABCDEFGHIJKLMNOPQRSTUVWXYZabcdefghijklmnopqrstuvwxyz0123456789+/''"

definition base58Alphabet :: string where
  "base58Alphabet = ''123456789ABCDEFGHJKLMNPQRSTUVWXYZabcdefghijkmnopqrstuvwxyz''"

fun indexOf :: "string \<Rightarrow> char \<Rightarrow> nat option" where
  "indexOf [] c = None"
| "indexOf (a # as) c = (if a = c then Some 0 else map_option Suc (indexOf as c))"

text \<open>The digit of every character, or \<open>None\<close> when a character is not in the alphabet.\<close>

fun digitsOf :: "string \<Rightarrow> string \<Rightarrow> nat list option" where
  "digitsOf alphabet [] = Some []"
| "digitsOf alphabet (c # cs) =
     (case indexOf alphabet c of
        None \<Rightarrow> None
      | Some d \<Rightarrow> map_option ((#) d) (digitsOf alphabet cs))"

fun sextetsToBytes :: "nat list \<Rightarrow> byte list option" where
  "sextetsToBytes (a # b # c # d # rest) =
     map_option (\<lambda>bs. of_nat (a * 4 + b div 16) # of_nat ((b mod 16) * 16 + c div 4)
                        # of_nat ((c mod 4) * 64 + d) # bs)
       (sextetsToBytes rest)"
| "sextetsToBytes [a, b, c] =
     (if c mod 4 = 0
      then Some [of_nat (a * 4 + b div 16), of_nat ((b mod 16) * 16 + c div 4)]
      else None)"
| "sextetsToBytes [a, b] = (if b mod 16 = 0 then Some [of_nat (a * 4 + b div 16)] else None)"
| "sextetsToBytes [a] = None"
| "sextetsToBytes [] = Some []"

definition stripPadding :: "string \<Rightarrow> string" where
  "stripPadding s = rev (dropWhile (\<lambda>c. c = CHR ''='') (rev s))"

definition base64Decode :: "string \<Rightarrow> byte list option" where
  "base64Decode s =
     (case digitsOf base64Alphabet (stripPadding s) of
        None \<Rightarrow> None
      | Some ds \<Rightarrow> sextetsToBytes ds)"

fun base64padEncode :: "byte list \<Rightarrow> string" where
  "base64padEncode (x # y # z # rest) =
     (let a = unat x; b = unat y; c = unat z
      in [base64Alphabet ! (a div 4), base64Alphabet ! ((a mod 4) * 16 + b div 16),
          base64Alphabet ! ((b mod 16) * 4 + c div 64), base64Alphabet ! (c mod 64)]
         @ base64padEncode rest)"
| "base64padEncode [x, y] =
     (let a = unat x; b = unat y
      in [base64Alphabet ! (a div 4), base64Alphabet ! ((a mod 4) * 16 + b div 16),
          base64Alphabet ! ((b mod 16) * 4), CHR ''=''])"
| "base64padEncode [x] =
     (let a = unat x
      in [base64Alphabet ! (a div 4), base64Alphabet ! ((a mod 4) * 16), CHR ''='', CHR ''=''])"
| "base64padEncode [] = []"

text \<open>A number from its digits, most significant first, and back.\<close>

fun fromDigits :: "nat \<Rightarrow> nat \<Rightarrow> nat list \<Rightarrow> nat" where
  "fromDigits base acc [] = acc"
| "fromDigits base acc (d # ds) = fromDigits base (acc * base + d) ds"

text \<open>The first argument after the base bounds the number of digits by its length.\<close>

fun toDigits :: "nat \<Rightarrow> 'a list \<Rightarrow> nat \<Rightarrow> nat list \<Rightarrow> nat list" where
  "toDigits base [] n acc = acc"
| "toDigits base (f # fuel) n acc =
     (if n = 0 then acc else toDigits base fuel (n div base) (n mod base # acc))"

definition base58Encode :: "byte list \<Rightarrow> string" where
  "base58Encode bs =
     map (\<lambda>_. CHR ''1'') (takeWhile (\<lambda>b. b = 0) bs) @
     map ((!) base58Alphabet) (toDigits 58 (bs @ bs) (fromDigits 256 0 (map unat bs)) [])"

definition base58Decode :: "string \<Rightarrow> byte list option" where
  "base58Decode s =
     (case digitsOf base58Alphabet s of
        None \<Rightarrow> None
      | Some ds \<Rightarrow>
          Some (map (\<lambda>_. 0) (takeWhile (\<lambda>d. d = 0) ds) @
                map of_nat (toDigits 256 ds (fromDigits 58 0 ds) [])))"

text \<open>
  The encodings with the method prefix of \<^verbatim>\<open>did:key\<close> identifiers, and a prefix table
  with the multicodec prefixes of the two algorithm tags.
\<close>

definition stdCodecs :: codecs where
  "stdCodecs =
     \<lparr>fromBase64 = base64Decode,
      toBase64pad = base64padEncode,
      fromBase58btc = base58Decode,
      toBase58btc = base58Encode,
      BASE58_DID_PREFIX = ''did:key:z'',
      prefixTable = [(Edwards, [0xed, 0x01]), (RSA, [0x00, 0xf5, 0x02])]\<rparr>"

text \<open>
  A prefix table in which every byte string has at most one registered prefix: no entry
  occurs twice, and no registered prefix begins with another one.
\<close>

definition prefixFree :: "(KeyType \<times> byte list) list \<Rightarrow> bool" where
  "prefixFree table =
     (distinct table \<and>
      list_all (\<lambda>(t1, p1). list_all (\<lambda>(t2, p2). prefix p1 p2 \<longrightarrow> (t1, p1) = (t2, p2)) table) table)"

section \<open>A concrete environment\<close>

text \<open>
  An environment in which the functions can be evaluated: the payload texts are the keys
  of a table, the only header text is \<open>H\<close>, the base64 helpers leave the text as it is,
  and a signature verifies when it is the text \<open>signed:\<close> followed by the issuer.
\<close>

text \<open>The JSON value of a payload, as \<^verbatim>\<open>JSON.parse\<close> gives it back.\<close>

definition membersJSON :: "(string \<times> string) list \<Rightarrow> json" where
  "membersJSON kvs = JObject (map (\<lambda>(k, v). (k, JString v)) kvs)"

definition payloadJSON :: "UcanPayload \<Rightarrow> json" where
  "payloadJSON p =
     JObject
       [(''aud'', JString (aud p)),
        (''exp'', JNumber (exp p)),
        (''fct'', JArray (map membersJSON (fct p))),
        (''iss'', JString (iss p)),
        (''nbf'', JNumber (nbf p)),
        (''prf'', (case prf' p of None \<Rightarrow> JNull | Some q \<Rightarrow> JString q)),
        (''ptc'', JString (ptc p)),
        (''rsc'', (case rsc p of Wildcard \<Rightarrow> JString ''*'' | Scoped kvs \<Rightarrow> membersJSON kvs))]"

definition demoHeader :: UcanHeader where
  "demoHeader = \<lparr>alg = ''EdDSA'', typ' = ''JWT'', uav = ''1.0.0''\<rparr>"

definition demoEnv :: "int \<Rightarrow> (string \<times> UcanPayload) list \<Rightarrow> env" where
  "demoEnv now table =
     \<lparr>dateNow = now,
      keystoreAlg = ''ed25519'',
      keystoreSign = (\<lambda>msg. ''signed:did:key:zA''),
      didUcan = ''did:key:zA'',
      verifySignedData = (\<lambda>dat did sig. sig = ''signed:'' @ did),
      urlEncode = (\<lambda>s. s),
      urlDecode = Some,
      makeUrlSafe = (\<lambda>s. s),
      makeUrlUnsafe = (\<lambda>s. s),
      stringifyHeader = (\<lambda>h. ''H''),
      stringifyPayload =
        (\<lambda>p. case find (\<lambda>(k, v). v = p) table of None \<Rightarrow> ''?'' | Some (k, v) \<Rightarrow> k),
      parseHeader = (\<lambda>s. if s = ''H'' then Some demoHeader else None),
      parsePayload = map_of table,
      parseJSON = (\<lambda>s. map_option payloadJSON (map_of table s))\<rparr>"

definition demoPayload :: "string \<Rightarrow> string \<Rightarrow> int \<Rightarrow> int \<Rightarrow> string option \<Rightarrow> UcanPayload" where
  "demoPayload i a n x p =
     \<lparr>aud = a, exp = x, fct = [], iss = i, nbf = n, prf' = p, ptc = ''APPEND'', rsc = Wildcard\<rparr>"

definition demoParams :: "string \<Rightarrow> BuildParams" where
  "demoParams a =
     \<lparr>addSignature = None, audience = a, facts = None, issuer = None,
      lifetimeInSeconds = None, expiration = None, potency = None, proofArg = None,
      resource = None\<rparr>"

text \<open>A root token of issuer \<open>zR\<close> for audience \<open>zA\<close>, valid from 100 to 5000.\<close>

definition rootPayload :: UcanPayload where
  "rootPayload = demoPayload ''did:key:zR'' ''did:key:zA'' 100 5000 None"

definition rootEnv :: env where
  "rootEnv = demoEnv 1000000 [(''P'', rootPayload)]"

text \<open>The same root token, restricted to one resource.\<close>

definition scopedPayload :: UcanPayload where
  "scopedPayload = rootPayload\<lparr>rsc := Scoped [(''wnfs'', ''/public'')]\<rparr>"

definition scopedEnv :: env where
  "scopedEnv = demoEnv 1000000 [(''Q'', scopedPayload)]"

section \<open>Proof chains\<close>

text \<open>
  The vocabulary of the claims about \<^verbatim>\<open>isValid\<close>. The signature of a token verifies: the
  check that \<^verbatim>\<open>isValid\<close> makes at one level, against the issuer of that level's payload.
\<close>

definition signatureVerifies :: "env \<Rightarrow> Ucan \<Rightarrow> bool" where
  "signatureVerifies e u =
     verifySignedData e (encodeHeader e (header u) @ ''.'' @ encodePayload e (payload u))
       (iss (payload u)) (makeUrlUnsafe e (orString (signature u) ''''))"

text \<open>
  The proof chain of a token: the proof it carries decodes to the head of the list, whose
  proof decodes to the next one, down to a token that carries no proof.
\<close>

fun proofChain :: "env \<Rightarrow> Ucan \<Rightarrow> Ucan list \<Rightarrow> bool" where
  "proofChain e u [] = (\<not> truthy (prf' (payload u)))"
| "proofChain e u (p # ps) =
     (truthy (prf' (payload u)) \<and> decode e (the (prf' (payload u))) = Inr p \<and> proofChain e p ps)"

text \<open>Chain continuity: the audience of every proof is the issuer of the token it proves.\<close>

fun continuous :: "Ucan list \<Rightarrow> bool" where
  "continuous (u # p # ps) = (aud (payload p) = iss (payload u) \<and> continuous (p # ps))"
| "continuous [u] = True"
| "continuous [] = True"

text \<open>
  The by-value encoding of proofs: the proof of a decoded token is a string inside the
  JSON text of the payload, which is base64url-encoded into a segment of the token, so
  it is strictly shorter than the encoded token that carries it.
\<close>

definition shrinking :: "env \<Rightarrow> bool" where
  "shrinking e =
     (\<forall>s u q. decode e s = Inr u \<and> prf' (payload u) = Some q \<longrightarrow> length q < length s)"

text \<open>
  The vocabulary of the facts about \<^verbatim>\<open>rootIssuer\<close>. The payloads of an encoded token:
  its payload parses to the head of the list, the proof of that payload to the next one,
  down to a payload that is not \<^verbatim>\<open>null\<close> and carries no proof.
\<close>

fun payloadChain :: "env \<Rightarrow> string \<Rightarrow> json list \<Rightarrow> bool" where
  "payloadChain e s [] = False"
| "payloadChain e s [p] =
     (parseSegment e (parseJSON e) (segment (split_dot s) 1) = Inr p
      \<and> (case getProperty p ''prf'' of Inl err \<Rightarrow> False | Inr v \<Rightarrow> \<not> truthyValue v))"
| "payloadChain e s (p # q # ps) =
     (parseSegment e (parseJSON e) (segment (split_dot s) 1) = Inr p
      \<and> (case getProperty p ''prf'' of
           Inr (Some (JString t)) \<Rightarrow> t \<noteq> [] \<and> payloadChain e t (q # ps)
         | _ \<Rightarrow> False))"

text \<open>
  The parsing throws at depth \<open>d\<close>, on the value \<open>bad\<close>, inside the \<^verbatim>\<open>try\<close> of
  \<^verbatim>\<open>extractPayload\<close>: the payloads above parse and carry a proof each.
\<close>

fun malformedAt :: "env \<Rightarrow> json \<Rightarrow> nat \<Rightarrow> json \<Rightarrow> bool" where
  "malformedAt e v 0 bad = (bad = v \<and> isl (extractPayload e v 0))"
| "malformedAt e v (Suc d) bad =
     (case extractPayload e v 0 of
        Inl err \<Rightarrow> False
      | Inr p \<Rightarrow>
          (case getProperty p ''prf'' of
             Inl err \<Rightarrow> False
           | Inr prf \<Rightarrow> truthyValue prf \<and> malformedAt e (the prf) d bad))"

text \<open>
  Tokens for evaluation: a token of issuer \<open>zA\<close> that carries the root token as proof, and
  the same token with a forged signature on its proof.
\<close>

definition rootToken :: Ucan where
  "rootToken = \<lparr>header = demoHeader, payload = rootPayload, signature = Some ''signed:did:key:zR''\<rparr>"

definition leafPayload :: UcanPayload where
  "leafPayload =
     demoPayload ''did:key:zA'' ''did:key:zB'' 940 1030 (Some ''H.P.signed:did:key:zR'')"

definition leafToken :: Ucan where
  "leafToken = \<lparr>header = demoHeader, payload = leafPayload, signature = Some ''signed:did:key:zA''\<rparr>"

definition forgedLeafToken :: Ucan where
  "forgedLeafToken =
     \<lparr>header = demoHeader,
      payload = leafPayload\<lparr>prf' := Some ''H.P.forged''\<rparr>,
      signature = Some ''signed:did:key:zA''\<rparr>"

text \<open>
  An environment with proof chains of every depth, in which every proof is shorter than
  the token that carries it: a payload text of at least 21 characters carries the proof
  whose payload text is 21 characters shorter, and a shorter payload text carries none.
  The token \<open>deepToken n\<close> has \<open>n\<close> proofs below it.
\<close>

definition deepPayload :: "string \<Rightarrow> UcanPayload" where
  "deepPayload s =
     demoPayload ''did:key:zA'' ''did:key:zA'' 0 5000
       (if length s < 21 then None else Some (''H.'' @ drop 21 s @ ''.signed:did:key:zA''))"

definition deepEnv :: env where
  "deepEnv = (demoEnv 1000000 [])\<lparr>parsePayload := (\<lambda>s. Some (deepPayload s))\<rparr>"

definition deepToken :: "nat \<Rightarrow> Ucan" where
  "deepToken n =
     \<lparr>header = demoHeader, payload = deepPayload (replicate (21 * n) (CHR ''a'')),
      signature = Some ''signed:did:key:zA''\<rparr>"

fun deepChain :: "nat \<Rightarrow> Ucan list" where
  "deepChain 0 = []"
| "deepChain (Suc n) = deepToken n # deepChain n"

text \<open>
  Encoded tokens for evaluation: \<open>H.A.S\<close> has the proof \<open>H.B.S\<close>, which has the proof
  \<open>H.C.S\<close>, which has none; \<open>H.D.S\<close> has the proof \<open>H.E.S\<close>, whose proof \<open>H.X.S\<close> has
  a payload that \<^verbatim>\<open>JSON.parse\<close> rejects.
\<close>

definition chainEnv :: env where
  "chainEnv = demoEnv 1000000
     [(''A'', demoPayload ''did:key:zA'' ''did:key:zZ'' 0 5000 (Some ''H.B.S'')),
      (''B'', demoPayload ''did:key:zB'' ''did:key:zA'' 0 5000 (Some ''H.C.S'')),
      (''C'', demoPayload ''did:key:zC'' ''did:key:zB'' 0 5000 None),
      (''D'', demoPayload ''did:key:zD'' ''did:key:zZ'' 0 5000 (Some ''H.E.S'')),
      (''E'', demoPayload ''did:key:zE'' ''did:key:zD'' 0 5000 (Some ''H.X.S''))]"

text \<open>
  Encoded tokens whose payload is valid JSON and not a payload object: the payload text
  \<open>N\<close> is the JSON text \<^verbatim>\<open>null\<close>, and \<open>O\<close> is the empty object. \<open>H.F.S\<close> has the
  proof \<open>H.G.S\<close>, whose proof is \<open>H.N.S\<close>.
\<close>

definition nullEnv :: env where
  "nullEnv = (demoEnv 1000000 [])\<lparr>parseJSON := map_of
     [(''N'', JNull),
      (''O'', JObject []),
      (''F'', JObject [(''iss'', JString ''did:key:zF''), (''prf'', JString ''H.G.S'')]),
      (''G'', JObject [(''iss'', JString ''did:key:zG''), (''prf'', JString ''H.N.S'')])]\<rparr>"

section \<open>The fields of the concrete environment\<close>

lemma demoEnv_fields [simp]:
  "dateNow (demoEnv now table) = now"
  "keystoreAlg (demoEnv now table) = ''ed25519''"
  "keystoreSign (demoEnv now table) = (\<lambda>msg. ''signed:did:key:zA'')"
  "didUcan (demoEnv now table) = ''did:key:zA''"
  "verifySignedData (demoEnv now table) = (\<lambda>dat did sig. sig = ''signed:'' @ did)"
  "urlEncode (demoEnv now table) = (\<lambda>s. s)"
  "urlDecode (demoEnv now table) = Some"
  "makeUrlSafe (demoEnv now table) = (\<lambda>s. s)"
  "makeUrlUnsafe (demoEnv now table) = (\<lambda>s. s)"
  "stringifyHeader (demoEnv now table) = (\<lambda>h. ''H'')"
  "stringifyPayload (demoEnv now table) =
     (\<lambda>p. case find (\<lambda>(k, v). v = p) table of None \<Rightarrow> ''?'' | Some (k, v) \<Rightarrow> k)"
  "parseHeader (demoEnv now table) = (\<lambda>s. if s = ''H'' then Some demoHeader else None)"
  "parsePayload (demoEnv now table) = map_of table"
  "parseJSON (demoEnv now table) = (\<lambda>s. map_option payloadJSON (map_of table s))"
  by (simp_all add: demoEnv_def)

section \<open>Expiry\<close>

text \<open>
  Claim C4. For every token and every clock reading, with \<open>now\<close> the clock in whole
  seconds, \<^verbatim>\<open>isExpired\<close> is true exactly when the token's \<open>exp\<close> is at most \<open>now\<close>:
  it is true at \<open>exp = now\<close> and at \<open>exp = now - 1\<close>, and false at \<open>exp = now + 1\<close>.
\<close>

theorem isExpired_iff_exp_le_now:
  assumes "now = dateNow e div 1000"
  shows "(isExpired e u \<longleftrightarrow> exp (payload u) \<le> now)
       \<and> (exp (payload u) = now \<longrightarrow> isExpired e u)
       \<and> (exp (payload u) = now - 1 \<longrightarrow> isExpired e u)
       \<and> (exp (payload u) = now + 1 \<longrightarrow> \<not> isExpired e u)"
  using assms by (simp add: isExpired_def)

theorem isExpired_iff_exp_le_now_witness:
  "isExpired (demoEnv 1700000000999 [])
       \<lparr>header = demoHeader, payload = demoPayload ''did:key:zA'' ''did:key:zB'' 0 1700000000 None,
        signature = None\<rparr>
   \<and> \<not> isExpired (demoEnv 1700000000999 [])
       \<lparr>header = demoHeader, payload = demoPayload ''did:key:zA'' ''did:key:zB'' 0 1700000001 None,
        signature = None\<rparr>"
proof -
  have now: "(1700000000::int) = dateNow (demoEnv 1700000000999 []) div 1000"
    by (simp add: demoEnv_def)
  have a: "exp (payload \<lparr>header = demoHeader,
      payload = demoPayload ''did:key:zA'' ''did:key:zB'' 0 1700000000 None, signature = None\<rparr>) = 1700000000"
    by (simp add: demoPayload_def)
  have b: "exp (payload \<lparr>header = demoHeader,
      payload = demoPayload ''did:key:zA'' ''did:key:zB'' 0 1700000001 None, signature = None\<rparr>) = 1700000000 + 1"
    by (simp add: demoPayload_def)
  from isExpired_iff_exp_le_now [OF now] a b show ?thesis
    by blast
qed

section \<open>Building a token\<close>

lemma decode_Nil: "\<exists>err. decode e [] = Inl err"
  by (simp add: decode_def segment_def parseSegment_def split: sum.splits option.splits)

lemma decodeProof_Some: "decode e s = Inr d \<Longrightarrow> decodeProof e (Some s) = Inr (Some d)"
  using decode_Nil [of e] by (auto simp: decodeProof_def)

text \<open>
  \<^verbatim>\<open>build\<close> throws only when the proof is a non-empty string that \<^verbatim>\<open>decode\<close> rejects;
  otherwise it returns a token with these timestamps and this resource.
\<close>

lemma build_payload_fields:
  assumes "decodeProof e (proofArg ps) = Inr dp"
  shows "\<exists>u. build e ps = Inr u
     \<and> exp (payload u) =
         (let exp0 = orNumber (expiration ps)
                       (dateNow e div 1000 + (case lifetimeInSeconds ps of None \<Rightarrow> 30 | Some l \<Rightarrow> l))
          in case dp of None \<Rightarrow> exp0 | Some d \<Rightarrow> min (exp (payload d)) exp0)
     \<and> nbf (payload u) =
         (case dp of None \<Rightarrow> dateNow e div 1000 - 60
          | Some d \<Rightarrow> max (nbf (payload d)) (dateNow e div 1000 - 60))
     \<and> rsc (payload u) =
         (case resource ps of Some r \<Rightarrow> r
          | None \<Rightarrow> (case dp of Some d \<Rightarrow> rsc (payload d) | None \<Rightarrow> Wildcard))"
  using assms by (simp add: build_def Let_def)

lemma rootEnv_decode:
  "decode rootEnv ''H.P.S'' = Inr \<lparr>header = demoHeader, payload = rootPayload, signature = Some ''S''\<rparr>"
  by (simp add: rootEnv_def decode_def segment_def parseSegment_def orNull_def truthy_def)

lemma rootEnv_decodeProof:
  "decodeProof rootEnv (Some ''H.P.S'') =
     Inr (Some \<lparr>header = demoHeader, payload = rootPayload, signature = Some ''S''\<rparr>)"
  by (simp add: decodeProof_def rootEnv_decode)

lemma rootEnv_now [simp]: "dateNow rootEnv = 1000000"
  by (simp add: rootEnv_def)

lemma rootPayload_fields [simp]:
  "exp rootPayload = 5000" "nbf rootPayload = 100" "rsc rootPayload = Wildcard"
  by (simp_all add: rootPayload_def demoPayload_def)

text \<open>
  Claim C2, as stated: with a proof supplied, \<open>exp\<close> is the minimum of the requested
  expiry and the proof's \<open>exp\<close>, where the requested expiry is the explicit expiration
  when one is given. It fails for the explicit expiration \<open>0\<close>: at time 1000, with a
  proof that expires at 5000, the claim gives \<open>min 0 5000\<close>, and \<^verbatim>\<open>build\<close> gives 1030,
  because \<^verbatim>\<open>expiration || (now + lifetime)\<close> takes \<open>0\<close> for an absent value.
\<close>

theorem build_explicit_zero_expiration_counterexample:
  "(case build rootEnv
          ((demoParams ''did:key:zB'')\<lparr>expiration := Some 0, proofArg := Some ''H.P.S''\<rparr>) of
      Inl err \<Rightarrow> False
    | Inr u \<Rightarrow> exp (payload u) = 1030 \<and> exp (payload u) \<noteq> min 0 5000)"
proof -
  let ?ps = "(demoParams ''did:key:zB'')\<lparr>expiration := Some 0, proofArg := Some ''H.P.S''\<rparr>"
  have "decodeProof rootEnv (proofArg ?ps) =
      Inr (Some \<lparr>header = demoHeader, payload = rootPayload, signature = Some ''S''\<rparr>)"
    by (simp add: rootEnv_decodeProof demoParams_def)
  from build_payload_fields [OF this] show ?thesis
    by (auto simp: Let_def demoParams_def orNumber_def)
qed

text \<open>
  Claim C2, amended. For every call to \<^verbatim>\<open>build\<close> with a proof that decodes, the call
  returns a token whose \<open>exp\<close> is the minimum of the requested expiry and the proof's
  \<open>exp\<close>, and whose \<open>nbf\<close> is the maximum of \<open>now - 60\<close> and the proof's \<open>nbf\<close>; the
  requested expiry is the explicit expiration when one is given and is not \<open>0\<close>, and
  \<open>now + lifetimeInSeconds\<close> otherwise, with a lifetime of 30 by default.
\<close>

theorem build_narrows_window:
  assumes "proofArg ps = Some s" and "decode e s = Inr d"
    and "now = dateNow e div 1000"
    and "lifetime = (case lifetimeInSeconds ps of None \<Rightarrow> 30 | Some l \<Rightarrow> l)"
    and "requested = (case expiration ps of None \<Rightarrow> now + lifetime
                      | Some x \<Rightarrow> if x = 0 then now + lifetime else x)"
  shows "\<exists>u. build e ps = Inr u
             \<and> exp (payload u) = min requested (exp (payload d))
             \<and> nbf (payload u) = max (now - 60) (nbf (payload d))"
proof -
  have "decodeProof e (proofArg ps) = Inr (Some d)"
    using assms(1,2) by (simp add: decodeProof_Some)
  from build_payload_fields [OF this] obtain u where u: "build e ps = Inr u"
    and x: "exp (payload u) = min (exp (payload d)) (orNumber (expiration ps)
              (dateNow e div 1000 + (case lifetimeInSeconds ps of None \<Rightarrow> 30 | Some l \<Rightarrow> l)))"
    and n: "nbf (payload u) = max (nbf (payload d)) (dateNow e div 1000 - 60)"
    by (auto simp: Let_def)
  have "orNumber (expiration ps)
          (dateNow e div 1000 + (case lifetimeInSeconds ps of None \<Rightarrow> 30 | Some l \<Rightarrow> l)) = requested"
    using assms(3,4,5) by (simp add: orNumber_def split: option.splits)
  with u x n assms(3) show ?thesis
    by (simp add: min.commute max.commute)
qed

text \<open>
  At time 1000 the default lifetime asks for 1030 and the proof allows 5000; the skew
  tolerance gives 940 and the proof starts at 100. With the explicit expiration 9000
  the proof's 5000 wins.
\<close>

theorem build_narrows_window_witness:
  "(\<exists>u. build rootEnv ((demoParams ''did:key:zB'')\<lparr>proofArg := Some ''H.P.S''\<rparr>) = Inr u
        \<and> exp (payload u) = 1030 \<and> nbf (payload u) = 940)
   \<and> (\<exists>u. build rootEnv ((demoParams ''did:key:zB'')
              \<lparr>expiration := Some 9000, proofArg := Some ''H.P.S''\<rparr>) = Inr u
        \<and> exp (payload u) = 5000 \<and> nbf (payload u) = 940)"
proof -
  let ?d = "\<lparr>header = demoHeader, payload = rootPayload, signature = Some ''S''\<rparr>"
  let ?p1 = "(demoParams ''did:key:zB'')\<lparr>proofArg := Some ''H.P.S''\<rparr>"
  let ?p2 = "(demoParams ''did:key:zB'')\<lparr>expiration := Some 9000, proofArg := Some ''H.P.S''\<rparr>"
  have now: "(1000::int) = dateNow rootEnv div 1000" by simp
  have a1: "proofArg ?p1 = Some ''H.P.S''" by simp
  have l1: "(30::int) = (case lifetimeInSeconds ?p1 of None \<Rightarrow> 30 | Some l \<Rightarrow> l)"
    by (simp add: demoParams_def)
  have r1: "(1030::int) = (case expiration ?p1 of None \<Rightarrow> 1000 + 30
                          | Some x \<Rightarrow> if x = 0 then 1000 + 30 else x)"
    by (simp add: demoParams_def)
  have a2: "proofArg ?p2 = Some ''H.P.S''" by simp
  have l2: "(30::int) = (case lifetimeInSeconds ?p2 of None \<Rightarrow> 30 | Some l \<Rightarrow> l)"
    by (simp add: demoParams_def)
  have r2: "(9000::int) = (case expiration ?p2 of None \<Rightarrow> 1000 + 30
                          | Some x \<Rightarrow> if x = 0 then 1000 + 30 else x)"
    by simp
  from build_narrows_window [OF a1 rootEnv_decode now l1 r1]
       build_narrows_window [OF a2 rootEnv_decode now l2 r2]
  show ?thesis by simp
qed

text \<open>
  Claim C5, as stated: every token that \<^verbatim>\<open>build\<close> returns has \<open>exp \<ge> nbf\<close>, whatever
  the explicit expiration. It fails at time 1000 for the explicit expiration 5:
  \<^verbatim>\<open>build\<close> returns \<open>exp = 5\<close> and \<open>nbf = 940\<close>. Nothing in \<^verbatim>\<open>build\<close> compares the two.
\<close>

theorem build_exp_below_nbf_counterexample:
  "(case build rootEnv ((demoParams ''did:key:zB'')\<lparr>expiration := Some 5\<rparr>) of
      Inl err \<Rightarrow> False
    | Inr u \<Rightarrow> exp (payload u) = 5 \<and> nbf (payload u) = 940 \<and> \<not> exp (payload u) \<ge> nbf (payload u))"
proof -
  let ?ps = "(demoParams ''did:key:zB'')\<lparr>expiration := Some 5\<rparr>"
  have "decodeProof rootEnv (proofArg ?ps) = Inr None"
    by (simp add: decodeProof_def demoParams_def)
  from build_payload_fields [OF this] show ?thesis
    by (auto simp: Let_def demoParams_def orNumber_def)
qed

text \<open>
  Claim C5, amended. When \<^verbatim>\<open>build\<close> does not throw, it returns a token that has
  \<open>exp \<ge> nbf\<close> exactly when the requested expiry (the explicit expiration if given and
  not \<open>0\<close>, else \<open>now + lifetimeInSeconds\<close>) is at least \<open>now - 60\<close> and, if a proof is
  supplied, the proof's \<open>exp\<close> is at least \<open>now - 60\<close> and at least the proof's \<open>nbf\<close>,
  and the requested expiry is at least the proof's \<open>nbf\<close>.
\<close>

theorem build_exp_ge_nbf_iff:
  assumes "decodeProof e (proofArg ps) = Inr dp"
    and "now = dateNow e div 1000"
    and "lifetime = (case lifetimeInSeconds ps of None \<Rightarrow> 30 | Some l \<Rightarrow> l)"
    and "requested = (case expiration ps of None \<Rightarrow> now + lifetime
                      | Some x \<Rightarrow> if x = 0 then now + lifetime else x)"
  shows "\<exists>u. build e ps = Inr u
           \<and> (exp (payload u) \<ge> nbf (payload u) \<longleftrightarrow>
                requested \<ge> now - 60
                \<and> (\<forall>d. dp = Some d \<longrightarrow>
                       exp (payload d) \<ge> now - 60
                     \<and> exp (payload d) \<ge> nbf (payload d)
                     \<and> requested \<ge> nbf (payload d)))"
proof -
  have req: "orNumber (expiration ps)
          (dateNow e div 1000 + (case lifetimeInSeconds ps of None \<Rightarrow> 30 | Some l \<Rightarrow> l)) = requested"
    using assms(2,3,4) by (simp add: orNumber_def split: option.splits)
  from build_payload_fields [OF assms(1)] obtain u where u: "build e ps = Inr u"
    and x0: "exp (payload u) =
         (let exp0 = orNumber (expiration ps)
                       (dateNow e div 1000 + (case lifetimeInSeconds ps of None \<Rightarrow> 30 | Some l \<Rightarrow> l))
          in case dp of None \<Rightarrow> exp0 | Some d \<Rightarrow> min (exp (payload d)) exp0)"
    and n0: "nbf (payload u) =
         (case dp of None \<Rightarrow> dateNow e div 1000 - 60
          | Some d \<Rightarrow> max (nbf (payload d)) (dateNow e div 1000 - 60))"
    by blast
  from x0 have x: "exp (payload u) =
      (case dp of None \<Rightarrow> requested | Some d \<Rightarrow> min (exp (payload d)) requested)"
    by (simp add: Let_def req split: option.splits)
  from n0 have n: "nbf (payload u) =
      (case dp of None \<Rightarrow> now - 60 | Some d \<Rightarrow> max (nbf (payload d)) (now - 60))"
    by (simp add: assms(2) split: option.splits)
  show ?thesis
  proof (cases dp)
    case None
    with u x n show ?thesis by simp
  next
    case (Some d)
    with u x n show ?thesis by auto
  qed
qed

text \<open>
  With the default lifetime and no proof the window is 90 seconds wide: the lifetime of
  30 and the skew tolerance of 60.
\<close>

theorem build_exp_ge_nbf_iff_witness:
  "\<exists>u. build rootEnv (demoParams ''did:key:zB'') = Inr u \<and> exp (payload u) \<ge> nbf (payload u)"
proof -
  let ?ps = "demoParams ''did:key:zB''"
  have d: "decodeProof rootEnv (proofArg ?ps) = Inr None"
    by (simp add: decodeProof_def demoParams_def)
  have now: "(1000::int) = dateNow rootEnv div 1000" by simp
  have l: "(30::int) = (case lifetimeInSeconds ?ps of None \<Rightarrow> 30 | Some l \<Rightarrow> l)"
    by (simp add: demoParams_def)
  have r: "(1030::int) = (case expiration ?ps of None \<Rightarrow> 1000 + 30
                         | Some x \<Rightarrow> if x = 0 then 1000 + 30 else x)"
    by (simp add: demoParams_def)
  from build_exp_ge_nbf_iff [OF d now l r] show ?thesis by simp
qed

lemma scopedEnv_decodeProof:
  "decodeProof scopedEnv (Some ''H.Q.S'') =
     Inr (Some \<lparr>header = demoHeader, payload = scopedPayload, signature = Some ''S''\<rparr>)"
  by (simp add: decodeProof_def scopedEnv_def decode_def segment_def
      parseSegment_def orNull_def truthy_def)

text \<open>
  Claim C9. For every call to \<^verbatim>\<open>build\<close> that does not throw: if a resource is supplied,
  the payload's \<open>rsc\<close> is that resource; otherwise, if a proof is supplied, \<open>rsc\<close> is
  the \<open>rsc\<close> of the decoded proof's payload; otherwise (the proof is absent, or the empty
  string, which \<^verbatim>\<open>build\<close> takes for absent) \<open>rsc\<close> is the wildcard.
\<close>

theorem build_resource:
  assumes "decodeProof e (proofArg ps) = Inr dp"
  shows "\<exists>u. build e ps = Inr u
           \<and> (\<forall>r. resource ps = Some r \<longrightarrow> rsc (payload u) = r)
           \<and> (resource ps = None \<longrightarrow>
                (\<forall>s d. proofArg ps = Some s \<and> decode e s = Inr d
                       \<longrightarrow> rsc (payload u) = rsc (payload d))
              \<and> (\<not> truthy (proofArg ps) \<longrightarrow> rsc (payload u) = Wildcard))"
proof -
  from build_payload_fields [OF assms] obtain u where u: "build e ps = Inr u"
    and r: "rsc (payload u) =
         (case resource ps of Some r \<Rightarrow> r
          | None \<Rightarrow> (case dp of Some d \<Rightarrow> rsc (payload d) | None \<Rightarrow> Wildcard))"
    by auto
  have a: "rsc (payload u) = rsc (payload d)"
    if "resource ps = None" "proofArg ps = Some s" "decode e s = Inr d" for s d
    using that r assms decodeProof_Some [of e s d] by auto
  have b: "rsc (payload u) = Wildcard" if "resource ps = None" "\<not> truthy (proofArg ps)"
    using that r assms by (auto simp: decodeProof_def truthy_def split: option.splits if_splits)
  from u r a b show ?thesis by auto
qed

theorem build_resource_witness:
  "(\<exists>u. build scopedEnv ((demoParams ''did:key:zB'')
            \<lparr>proofArg := Some ''H.Q.S'', resource := Some (Scoped [(''wnfs'', ''/private'')])\<rparr>) = Inr u
        \<and> rsc (payload u) = Scoped [(''wnfs'', ''/private'')])
   \<and> (\<exists>u. build scopedEnv ((demoParams ''did:key:zB'')\<lparr>proofArg := Some ''H.Q.S''\<rparr>) = Inr u
        \<and> rsc (payload u) = Scoped [(''wnfs'', ''/public'')])
   \<and> (\<exists>u. build scopedEnv (demoParams ''did:key:zB'') = Inr u \<and> rsc (payload u) = Wildcard)"
proof -
  let ?d = "\<lparr>header = demoHeader, payload = scopedPayload, signature = Some ''S''\<rparr>"
  let ?p1 = "(demoParams ''did:key:zB'')
     \<lparr>proofArg := Some ''H.Q.S'', resource := Some (Scoped [(''wnfs'', ''/private'')])\<rparr>"
  let ?p2 = "(demoParams ''did:key:zB'')\<lparr>proofArg := Some ''H.Q.S''\<rparr>"
  let ?p3 = "demoParams ''did:key:zB''"
  have dec: "decode scopedEnv ''H.Q.S'' = Inr ?d"
    using scopedEnv_decodeProof by (simp add: decodeProof_def split: sum.splits)
  have d1: "decodeProof scopedEnv (proofArg ?p1) = Inr (Some ?d)"
    by (simp add: scopedEnv_decodeProof)
  have d2: "decodeProof scopedEnv (proofArg ?p2) = Inr (Some ?d)"
    by (simp add: scopedEnv_decodeProof)
  have d3: "decodeProof scopedEnv (proofArg ?p3) = Inr None"
    by (simp add: decodeProof_def demoParams_def)
  have r: "rsc (payload ?d) = Scoped [(''wnfs'', ''/public'')]"
    by (simp add: scopedPayload_def)
  from build_resource [OF d1] have c1: "\<exists>u. build scopedEnv ?p1 = Inr u
        \<and> rsc (payload u) = Scoped [(''wnfs'', ''/private'')]"
    by auto
  from build_resource [OF d2] dec r have c2: "\<exists>u. build scopedEnv ?p2 = Inr u
        \<and> rsc (payload u) = Scoped [(''wnfs'', ''/public'')]"
    by (auto simp: demoParams_def)
  from build_resource [OF d3] have c3: "\<exists>u. build scopedEnv ?p3 = Inr u
        \<and> rsc (payload u) = Wildcard"
    by (auto simp: demoParams_def truthy_def)
  from c1 c2 c3 show ?thesis by blast
qed

section \<open>The key codec: round trip\<close>

lemma filter_single:
  assumes "distinct xs" and "x \<in> set xs" and "\<And>y. y \<in> set xs \<Longrightarrow> P y \<longleftrightarrow> y = x"
  shows "filter P xs = [x]"
  using assms
proof (induction xs)
  case Nil
  then show ?case by simp
next
  case (Cons a xs)
  show ?case
  proof (cases "a = x")
    case True
    with Cons.prems have "\<And>y. y \<in> set xs \<Longrightarrow> \<not> P y"
      by auto
    then have "filter P xs = []"
      by (simp add: filter_empty_conv)
    with True Cons.prems(3) [of a] show ?thesis by simp
  next
    case False
    with Cons.prems have "x \<in> set xs" "distinct xs" "\<not> P a"
      by auto
    with Cons.IH Cons.prems(3) show ?thesis by simp
  qed
qed

text \<open>
  In a prefix-free table the bytes \<open>pre @ keyBytes\<close> match the prefix of their own tag
  and no other, so \<^verbatim>\<open>parseMagicBytes\<close> gives the key bytes and the tag back.
\<close>

lemma parseMagicBytes_prefixed:
  assumes "prefixFree (prefixTable c)" and "magicBytes c ktype = Some pre"
  shows "parseMagicBytes c (pre @ keyBytes) = Inr (keyBytes, ktype)"
proof -
  from assms(2) have mem: "(ktype, pre) \<in> set (prefixTable c)"
    by (simp add: magicBytes_def map_of_SomeD)
  from assms(1) have dist: "distinct (prefixTable c)"
    and free: "\<And>t1 p1 t2 p2. (t1, p1) \<in> set (prefixTable c) \<Longrightarrow> (t2, p2) \<in> set (prefixTable c)
        \<Longrightarrow> prefix p1 p2 \<Longrightarrow> (t1, p1) = (t2, p2)"
    by (auto simp: prefixFree_def list_all_iff)
  have only: "(case y of (t, p) \<Rightarrow> prefix p (pre @ keyBytes)) \<longleftrightarrow> y = (ktype, pre)"
    if "y \<in> set (prefixTable c)" for y
  proof (cases y)
    case (Pair t p)
    show ?thesis
    proof
      assume "case y of (t, p) \<Rightarrow> prefix p (pre @ keyBytes)"
      with Pair have "prefix p (pre @ keyBytes)" by simp
      moreover have "prefix pre (pre @ keyBytes)" by simp
      ultimately have "prefix p pre \<or> prefix pre p"
        by (rule prefix_same_cases)
      with free [of t p ktype pre] free [of ktype pre t p] that mem Pair
      show "y = (ktype, pre)" by auto
    next
      assume "y = (ktype, pre)"
      then show "case y of (t, p) \<Rightarrow> prefix p (pre @ keyBytes)" by simp
    qed
  qed
  have "filter (\<lambda>(t, p). prefix p (pre @ keyBytes)) (prefixTable c) = [(ktype, pre)]"
    by (rule filter_single [OF dist mem]) (rule only)
  then show ?thesis
    by (simp add: parseMagicBytes_def)
qed

text \<open>What the two functions compute, whatever the text of the key.\<close>

lemma publicKeyToDid_Inr:
  assumes "fromBase64 c publicKey = Some keyBytes" and "magicBytes c ktype = Some pre"
  shows "publicKeyToDid c publicKey ktype =
           Inr (BASE58_DID_PREFIX c @ toBase58btc c (pre @ keyBytes))"
  using assms by (simp add: publicKeyToDid_def)

lemma didToPublicKey_Inr:
  assumes "fromBase58btc c body = Some (pre @ keyBytes)"
    and "magicBytes c ktype = Some pre" and "prefixFree (prefixTable c)"
  shows "didToPublicKey c (BASE58_DID_PREFIX c @ body) = Inr (toBase64pad c keyBytes, ktype)"
  using assms(1) parseMagicBytes_prefixed [OF assms(3,2), of keyBytes]
  by (simp add: didToPublicKey_def)

lemma std_fields [simp]:
  "fromBase64 stdCodecs = base64Decode" "toBase64pad stdCodecs = base64padEncode"
  "fromBase58btc stdCodecs = base58Decode" "toBase58btc stdCodecs = base58Encode"
  "BASE58_DID_PREFIX stdCodecs = ''did:key:z''"
  "prefixTable stdCodecs = [(Edwards, [0xed, 0x01]), (RSA, [0x00, 0xf5, 0x02])]"
  by (simp_all add: stdCodecs_def)

lemma std_prefixFree: "prefixFree (prefixTable stdCodecs)"
  by (simp add: prefixFree_def)

lemma std_magic:
  "magicBytes stdCodecs Edwards = Some [0xed, 0x01]"
  "magicBytes stdCodecs RSA = Some [0x00, 0xf5, 0x02]"
  by (simp_all add: magicBytes_def)

text \<open>The eight bytes 1 to 8 as a key: its base64 text with and without padding.\<close>

lemma base64Decode_padded: "base64Decode ''AQIDBAUGBwg='' = Some [1, 2, 3, 4, 5, 6, 7, 8]"
  by (simp add: base64Decode_def stripPadding_def base64Alphabet_def)

lemma base64Decode_unpadded: "base64Decode ''AQIDBAUGBwg'' = Some [1, 2, 3, 4, 5, 6, 7, 8]"
  by (simp add: base64Decode_def stripPadding_def base64Alphabet_def)

lemma base64padEncode_key: "base64padEncode [1, 2, 3, 4, 5, 6, 7, 8] = ''AQIDBAUGBwg=''"
  by (simp add: base64Alphabet_def)

lemma base58Encode_ed:
  "base58Encode ([0xed, 0x01] @ [1, 2, 3, 4, 5, 6, 7, 8]) = ''EKHhtutr1DSwqh''"
  by (simp add: base58Encode_def base58Alphabet_def)

lemma base58Decode_ed:
  "base58Decode ''EKHhtutr1DSwqh'' = Some ([0xed, 0x01] @ [1, 2, 3, 4, 5, 6, 7, 8])"
  by (simp add: base58Decode_def base58Alphabet_def)

lemma base58Encode_rsa:
  "base58Encode ([0x00, 0xf5, 0x02] @ [1, 2, 3, 4, 5, 6, 7, 8]) = ''1EmNQgnPFDYohdZ''"
  by (simp add: base58Encode_def base58Alphabet_def)

lemma base58Decode_rsa:
  "base58Decode ''1EmNQgnPFDYohdZ'' = Some ([0x00, 0xf5, 0x02] @ [1, 2, 3, 4, 5, 6, 7, 8])"
  by (simp add: base58Decode_def base58Alphabet_def)

text \<open>
  Claim C7, as stated: for every supported tag and every public key, decoding the
  encoded identifier returns the key, string for string. \<^verbatim>\<open>publicKeyToDid\<close> reads the
  key with the encoding \<open>base64\<close> and \<^verbatim>\<open>didToPublicKey\<close> writes it with \<open>base64pad\<close>:
  the key \<open>AQIDBAUGBwg\<close>, written without padding, comes back as \<open>AQIDBAUGBwg=\<close>.
\<close>

theorem did_roundtrip_unpadded_counterexample:
  "publicKeyToDid stdCodecs ''AQIDBAUGBwg'' Edwards = Inr ''did:key:zEKHhtutr1DSwqh''
   \<and> didToPublicKey stdCodecs ''did:key:zEKHhtutr1DSwqh'' = Inr (''AQIDBAUGBwg='', Edwards)
   \<and> ''AQIDBAUGBwg='' \<noteq> ''AQIDBAUGBwg''"
proof -
  have a: "fromBase64 stdCodecs ''AQIDBAUGBwg'' = Some [1, 2, 3, 4, 5, 6, 7, 8]"
    by (simp only: std_fields base64Decode_unpadded)
  have b: "fromBase58btc stdCodecs ''EKHhtutr1DSwqh'' = Some ([0xed, 0x01] @ [1, 2, 3, 4, 5, 6, 7, 8])"
    by (simp only: std_fields base58Decode_ed)
  from publicKeyToDid_Inr [OF a std_magic(1)]
  have "publicKeyToDid stdCodecs ''AQIDBAUGBwg'' Edwards = Inr ''did:key:zEKHhtutr1DSwqh''"
    by (simp only: std_fields base58Encode_ed) simp
  moreover from didToPublicKey_Inr [OF b std_magic(1) std_prefixFree]
  have "didToPublicKey stdCodecs ''did:key:zEKHhtutr1DSwqh'' = Inr (''AQIDBAUGBwg='', Edwards)"
    by (simp only: std_fields base64padEncode_key) simp
  ultimately show ?thesis by simp
qed

text \<open>
  Claim C7, amended. For every supported algorithm tag and every public key whose text
  is the padded base64 text of its bytes, decoding the encoded identifier returns the
  original key, string for string, and the tag. The byte encodings are those of the
  package \<^verbatim>\<open>uint8arrays\<close>: the theorem asks that base58 decoding inverts base58 encoding
  on the prefixed key, and that the prefix table is prefix-free.
\<close>

theorem did_roundtrip:
  assumes "fromBase64 c publicKey = Some keyBytes"
    and "toBase64pad c keyBytes = publicKey"
    and "magicBytes c ktype = Some pre"
    and "prefixFree (prefixTable c)"
    and "fromBase58btc c (toBase58btc c (pre @ keyBytes)) = Some (pre @ keyBytes)"
  shows "\<exists>did. publicKeyToDid c publicKey ktype = Inr did
             \<and> didToPublicKey c did = Inr (publicKey, ktype)"
proof -
  let ?did = "BASE58_DID_PREFIX c @ toBase58btc c (pre @ keyBytes)"
  have "publicKeyToDid c publicKey ktype = Inr ?did"
    using assms(1,3) by (rule publicKeyToDid_Inr)
  moreover have "didToPublicKey c ?did = Inr (publicKey, ktype)"
    using didToPublicKey_Inr [OF assms(5,3,4)] assms(2) by simp
  ultimately show ?thesis by blast
qed

theorem did_roundtrip_witness:
  "(\<exists>did. publicKeyToDid stdCodecs ''AQIDBAUGBwg='' Edwards = Inr did
         \<and> didToPublicKey stdCodecs did = Inr (''AQIDBAUGBwg='', Edwards))
   \<and> (\<exists>did. publicKeyToDid stdCodecs ''AQIDBAUGBwg='' RSA = Inr did
         \<and> didToPublicKey stdCodecs did = Inr (''AQIDBAUGBwg='', RSA))"
proof -
  have a: "fromBase64 stdCodecs ''AQIDBAUGBwg='' = Some [1, 2, 3, 4, 5, 6, 7, 8]"
    by (simp only: std_fields base64Decode_padded)
  have b: "toBase64pad stdCodecs [1, 2, 3, 4, 5, 6, 7, 8] = ''AQIDBAUGBwg=''"
    by (simp only: std_fields base64padEncode_key)
  have e: "fromBase58btc stdCodecs (toBase58btc stdCodecs ([0xed, 0x01] @ [1, 2, 3, 4, 5, 6, 7, 8]))
      = Some ([0xed, 0x01] @ [1, 2, 3, 4, 5, 6, 7, 8])"
    by (simp only: std_fields base58Encode_ed base58Decode_ed)
  have r: "fromBase58btc stdCodecs (toBase58btc stdCodecs ([0x00, 0xf5, 0x02] @ [1, 2, 3, 4, 5, 6, 7, 8]))
      = Some ([0x00, 0xf5, 0x02] @ [1, 2, 3, 4, 5, 6, 7, 8])"
    by (simp only: std_fields base58Encode_rsa base58Decode_rsa)
  from did_roundtrip [OF a b std_magic(1) std_prefixFree e]
       did_roundtrip [OF a b std_magic(2) std_prefixFree r]
  show ?thesis by blast
qed

section \<open>The wire format\<close>

lemma split_dot_nonempty [simp]: "split_dot s \<noteq> []"
  by (induction s) (auto split: list.splits)

lemma split_dot_no_dot: "CHR ''.'' \<notin> set a \<Longrightarrow> split_dot a = [a]"
  by (induction a) auto

lemma split_dot_append: "CHR ''.'' \<notin> set a \<Longrightarrow> split_dot (a @ CHR ''.'' # rest) = a # split_dot rest"
  by (induction a) auto

lemma segment_simps [simp]:
  "segment (x # xs) 0 = Some x"
  "segment (x # y # xs) 1 = Some y"
  "segment (x # y # z # xs) 2 = Some z"
  "segment (x # y # xs) (Suc 0) = Some y"
  "segment [x] 1 = None"
  "segment [x] (Suc 0) = None"
  "segment [x, y] 2 = None"
  by (simp_all add: segment_def)

text \<open>
  \<^verbatim>\<open>decode\<close> reads the first two segments and never counts them: it returns a token
  exactly when there are at least two segments and both parse.
\<close>

lemma decode_Inr_iff:
  "decode e s = Inr u \<longleftrightarrow>
     (\<exists>h p. 2 \<le> length (split_dot s)
          \<and> parseSegment e (parseHeader e) (Some (split_dot s ! 0)) = Inr h
          \<and> parseSegment e (parsePayload e) (Some (split_dot s ! 1)) = Inr p
          \<and> u = \<lparr>header = h, payload = p, signature = orNull (segment (split_dot s) 2)\<rparr>)"
proof (cases "2 \<le> length (split_dot s)")
  case True
  then have "segment (split_dot s) 0 = Some (split_dot s ! 0)"
    and "segment (split_dot s) 1 = Some (split_dot s ! 1)"
    by (simp_all add: segment_def)
  with True show ?thesis
    by (auto simp: decode_def Let_def split: sum.splits)
next
  case False
  then have "segment (split_dot s) 1 = None"
    by (simp add: segment_def)
  then have "parseSegment e (parsePayload e) (segment (split_dot s) 1) = Inl TypeError"
    by (simp add: parseSegment_def)
  with False show ?thesis
    by (auto simp: decode_def Let_def split: sum.splits)
qed

text \<open>
  Claim C3, as stated: \<^verbatim>\<open>decode\<close> fails on every string whose number of segments is not
  three. It returns a token for the two segments of \<open>H.P\<close> (with no signature), and for
  the four segments of \<open>H.P.S.X\<close> (with the signature \<open>S\<close>).
\<close>

theorem decode_wrong_segment_count_counterexample:
  "length (split_dot ''H.P'') = 2
   \<and> decode rootEnv ''H.P'' = Inr \<lparr>header = demoHeader, payload = rootPayload, signature = None\<rparr>
   \<and> length (split_dot ''H.P.S.X'') = 4
   \<and> decode rootEnv ''H.P.S.X'' =
       Inr \<lparr>header = demoHeader, payload = rootPayload, signature = Some ''S''\<rparr>"
  by (simp add: rootEnv_def decode_def Let_def parseSegment_def orNull_def truthy_def)

text \<open>
  Claim C3, amended. For every input string with fewer than two dot-separated segments,
  \<^verbatim>\<open>decode\<close> fails. With two segments or more it does not check the count: it returns
  a token whenever the first two segments decode and parse, whose signature is the
  third segment, or absent when there is none or it is empty; further segments are
  ignored.
\<close>

theorem decode_segment_count:
  "(length (split_dot s) < 2 \<longrightarrow> (\<exists>err. decode e s = Inl err))
   \<and> (2 \<le> length (split_dot s)
        \<and> parseSegment e (parseHeader e) (Some (split_dot s ! 0)) = Inr h
        \<and> parseSegment e (parsePayload e) (Some (split_dot s ! 1)) = Inr p
      \<longrightarrow> decode e s =
            Inr \<lparr>header = h, payload = p, signature = orNull (segment (split_dot s) 2)\<rparr>)"
proof -
  have "\<exists>err. decode e s = Inl err" if "length (split_dot s) < 2"
  proof (cases "decode e s")
    case (Inl err)
    then show ?thesis by blast
  next
    case (Inr u)
    with that show ?thesis by (simp add: decode_Inr_iff)
  qed
  then show ?thesis
    by (auto simp: decode_Inr_iff)
qed

theorem decode_segment_count_witness:
  "(\<exists>err. decode rootEnv ''H'' = Inl err)
   \<and> decode rootEnv ''H.P.S.X'' =
       Inr \<lparr>header = demoHeader, payload = rootPayload, signature = Some ''S''\<rparr>"
proof -
  have one: "length (split_dot ''H'') < 2" by simp
  have four: "2 \<le> length (split_dot ''H.P.S.X'')" by simp
  have h: "parseSegment rootEnv (parseHeader rootEnv) (Some (split_dot ''H.P.S.X'' ! 0)) = Inr demoHeader"
    by (simp add: rootEnv_def parseSegment_def)
  have p: "parseSegment rootEnv (parsePayload rootEnv) (Some (split_dot ''H.P.S.X'' ! 1)) = Inr rootPayload"
    by (simp add: rootEnv_def parseSegment_def)
  have s: "orNull (segment (split_dot ''H.P.S.X'') 2) = Some ''S''"
    by (simp add: orNull_def truthy_def)
  from decode_segment_count [of "''H''" rootEnv] one
       decode_segment_count [of "''H.P.S.X''" rootEnv demoHeader rootPayload] four h p s
  show ?thesis by simp
qed

text \<open>
  Claim C10. For every token whose signature is absent, \<^verbatim>\<open>encode\<close> writes the four
  characters \<open>null\<close> as third segment, and \<^verbatim>\<open>decode\<close> of the encoded token gives a
  token whose signature is the string \<open>null\<close>, not an absent one. The encoded header
  and payload are base64url text, which has no dot, and parse to a header and a payload.
\<close>

theorem encode_null_signature:
  assumes "signature u = None"
    and "CHR ''.'' \<notin> set (encodeHeader e (header u))"
    and "CHR ''.'' \<notin> set (encodePayload e (payload u))"
    and "parseSegment e (parseHeader e) (Some (encodeHeader e (header u))) = Inr h"
    and "parseSegment e (parsePayload e) (Some (encodePayload e (payload u))) = Inr p"
  shows "encode e u = encodeHeader e (header u) @ ''.'' @ encodePayload e (payload u) @ ''.'' @ ''null''
       \<and> segment (split_dot (encode e u)) 2 = Some ''null''
       \<and> length (split_dot (encode e u)) = 3
       \<and> decode e (encode e u) = Inr \<lparr>header = h, payload = p, signature = Some ''null''\<rparr>
       \<and> signature \<lparr>header = h, payload = p, signature = Some ''null''\<rparr> \<noteq> signature u"
proof -
  have enc: "encode e u = encodeHeader e (header u) @ ''.'' @ encodePayload e (payload u) @ ''.'' @ ''null''"
    using assms(1) by (simp add: encode_def Let_def)
  have sp: "split_dot (encode e u) = [encodeHeader e (header u), encodePayload e (payload u), ''null'']"
    using assms(2,3) by (simp add: enc split_dot_append)
  have "decode e (encode e u) = Inr \<lparr>header = h, payload = p, signature = Some ''null''\<rparr>"
    using assms(4,5) by (simp add: decode_Inr_iff sp orNull_def truthy_def)
  with enc sp assms(1) show ?thesis by simp
qed

theorem encode_null_signature_witness:
  "encode rootEnv \<lparr>header = demoHeader, payload = rootPayload, signature = None\<rparr> = ''H.P.null''
   \<and> decode rootEnv ''H.P.null'' =
       Inr \<lparr>header = demoHeader, payload = rootPayload, signature = Some ''null''\<rparr>"
proof -
  let ?u = "\<lparr>header = demoHeader, payload = rootPayload, signature = None\<rparr>"
  have eh: "encodeHeader rootEnv demoHeader = ''H''"
    by (simp add: encodeHeader_def rootEnv_def)
  have ep: "encodePayload rootEnv rootPayload = ''P''"
    by (simp add: encodePayload_def rootEnv_def)
  have a: "signature ?u = None" by simp
  have b: "CHR ''.'' \<notin> set (encodeHeader rootEnv (header ?u))" by (simp add: eh)
  have c: "CHR ''.'' \<notin> set (encodePayload rootEnv (payload ?u))" by (simp add: ep)
  have h: "parseSegment rootEnv (parseHeader rootEnv) (Some (encodeHeader rootEnv (header ?u))) = Inr demoHeader"
    by (simp add: eh) (simp add: rootEnv_def parseSegment_def)
  have p: "parseSegment rootEnv (parsePayload rootEnv) (Some (encodePayload rootEnv (payload ?u))) = Inr rootPayload"
    by (simp add: ep) (simp add: rootEnv_def parseSegment_def)
  note r = encode_null_signature [OF a b c h p]
  from r have e1: "encode rootEnv ?u = ''H.P.null''"
    by (simp add: eh ep)
  from r have "decode rootEnv (encode rootEnv ?u) =
      Inr \<lparr>header = demoHeader, payload = rootPayload, signature = Some ''null''\<rparr>"
    by blast
  with e1 show ?thesis by simp
qed

section \<open>Validation of a proof chain\<close>

lemma isValid_unfold:
  "isValid e u =
     (if \<not> signatureVerifies e u then Some (Inr False)
      else if \<not> truthy (prf' (payload u)) then Some (Inr True)
      else (case decode e (the (prf' (payload u))) of
              Inl err \<Rightarrow> Some (Inl err)
            | Inr p \<Rightarrow>
                if aud (payload p) \<noteq> iss (payload u) then Some (Inr False) else isValid e p))"
  by (subst isValid.simps) (simp add: Let_def signatureVerifies_def split: sum.splits)

text \<open>
  On a proof chain \<^verbatim>\<open>isValid\<close> returns, after one call for each token of the chain, and
  its result is the conjunction of the checks of every level.
\<close>

lemma isValid_on_chain:
  "proofChain e u ps \<Longrightarrow>
     isValid e u = Some (Inr (list_all (signatureVerifies e) (u # ps) \<and> continuous (u # ps)))"
proof (induction ps arbitrary: u)
  case Nil
  then show ?case
    by (subst isValid_unfold) simp
next
  case (Cons p ps)
  from Cons.prems have t: "truthy (prf' (payload u))"
    and d: "decode e (the (prf' (payload u))) = Inr p" and c: "proofChain e p ps"
    by simp_all
  from Cons.IH [OF c] t d show ?case
    by (subst isValid_unfold) auto
qed

lemma isValid_true_has_chain:
  assumes "isValid e u = Some r"
  shows "r = Inr True \<longrightarrow>
     (\<exists>ps. proofChain e u ps \<and> list_all (signatureVerifies e) (u # ps) \<and> continuous (u # ps))"
  using assms
proof (induction e u r rule: isValid.raw_induct [rotated 1, consumes 1, case_names step])
  case (step rec e u r)
  show ?case
  proof
    assume r: "r = Inr True"
    from step.hyps r have v: "signatureVerifies e u"
      by (auto simp: Let_def signatureVerifies_def split: if_splits)
    show "\<exists>ps. proofChain e u ps \<and> list_all (signatureVerifies e) (u # ps) \<and> continuous (u # ps)"
    proof (cases "truthy (prf' (payload u))")
      case False
      with v have "proofChain e u [] \<and> list_all (signatureVerifies e) [u] \<and> continuous [u]"
        by simp
      then show ?thesis by blast
    next
      case True
      with step.hyps r v obtain p where d: "decode e (the (prf' (payload u))) = Inr p"
        and a: "aud (payload p) = iss (payload u)" and rec: "rec e p = Some (Inr True)"
        by (auto simp: Let_def signatureVerifies_def split: if_splits sum.splits)
      from step.IH [OF rec] obtain ps where "proofChain e p ps"
        "list_all (signatureVerifies e) (p # ps)" "continuous (p # ps)"
        by auto
      with True d a v have "proofChain e u (p # ps) \<and> list_all (signatureVerifies e) (u # p # ps)
          \<and> continuous (u # p # ps)"
        by simp
      then show ?thesis by blast
    qed
  qed
qed

text \<open>
  Claim C1. For every decoded token, \<^verbatim>\<open>isValid\<close> returns true if and only if the token
  has a proof chain on which the signature verifies at every level, against the issuer
  of that level's payload, and on which the audience of every proof is the issuer of the
  token it proves. A token with a verified signature and no proof yields true.
\<close>

theorem isValid_true_iff:
  "(isValid e u = Some (Inr True) \<longleftrightarrow>
      (\<exists>ps. proofChain e u ps \<and> list_all (signatureVerifies e) (u # ps) \<and> continuous (u # ps)))
   \<and> (signatureVerifies e u \<and> \<not> truthy (prf' (payload u)) \<longrightarrow> isValid e u = Some (Inr True))"
proof -
  have "isValid e u = Some (Inr True)"
    if "proofChain e u ps" "list_all (signatureVerifies e) (u # ps)" "continuous (u # ps)" for ps
    using isValid_on_chain [OF that(1)] that(2,3) by simp
  moreover have "isValid e u = Some (Inr True)"
    if "signatureVerifies e u" "\<not> truthy (prf' (payload u))"
    using isValid_on_chain [of e u "[]"] that by simp
  ultimately show ?thesis
    using isValid_true_has_chain [of e u "Inr True"] by blast
qed

lemma rootEnv_decode_rootToken: "decode rootEnv ''H.P.signed:did:key:zR'' = Inr rootToken"
  by (simp add: rootEnv_def rootToken_def decode_def Let_def parseSegment_def orNull_def truthy_def)

lemma rootEnv_verifies:
  "signatureVerifies rootEnv leafToken" "signatureVerifies rootEnv rootToken"
  by (simp_all add: signatureVerifies_def rootEnv_def leafToken_def rootToken_def leafPayload_def
      rootPayload_def demoPayload_def orString_def)

lemma leafToken_chain: "proofChain rootEnv leafToken [rootToken]"
  using rootEnv_decode_rootToken
  by (simp add: leafToken_def leafPayload_def demoPayload_def truthy_def)
    (simp add: rootToken_def rootPayload_def demoPayload_def truthy_def)

theorem isValid_true_iff_witness:
  "isValid rootEnv leafToken = Some (Inr True) \<and> isValid rootEnv rootToken = Some (Inr True)"
proof -
  have c: "continuous [leafToken, rootToken]"
    by (simp add: leafToken_def rootToken_def leafPayload_def rootPayload_def demoPayload_def)
  have n: "\<not> truthy (prf' (payload rootToken))"
    by (simp add: rootToken_def rootPayload_def demoPayload_def truthy_def)
  have "\<exists>ps. proofChain rootEnv leafToken ps
      \<and> list_all (signatureVerifies rootEnv) (leafToken # ps) \<and> continuous (leafToken # ps)"
    using leafToken_chain rootEnv_verifies c
    by (intro exI [of _ "[rootToken]"] conjI) simp_all
  with isValid_true_iff [of rootEnv leafToken]
  have "isValid rootEnv leafToken = Some (Inr True)"
    by blast
  moreover from isValid_true_iff [of rootEnv rootToken] rootEnv_verifies(2) n
  have "isValid rootEnv rootToken = Some (Inr True)"
    by blast
  ultimately show ?thesis by simp
qed

section \<open>The depth of the recursion\<close>

lemma split_dot_segment_length: "x \<in> set (split_dot s) \<Longrightarrow> length x \<le> length s"
proof (induction s arbitrary: x)
  case Nil
  then show ?case by simp
next
  case (Cons c cs)
  show ?case
  proof (cases "c = CHR ''.''")
    case True
    with Cons.prems Cons.IH [of x] show ?thesis by auto
  next
    case False
    obtain y ys where sp: "split_dot cs = y # ys"
      by (cases "split_dot cs") simp_all
    with False Cons.prems have "x = c # y \<or> x \<in> set ys"
      by simp
    with Cons.IH [of y] Cons.IH [of x] sp show ?thesis
      by auto
  qed
qed

lemma decode_payload_segment:
  assumes "decode e s = Inr u"
  shows "\<exists>seg. seg \<in> set (split_dot s)
     \<and> parseSegment e (parsePayload e) (Some seg) = Inr (payload u)"
proof -
  from assms obtain h p where l: "2 \<le> length (split_dot s)"
    and p: "parseSegment e (parsePayload e) (Some (split_dot s ! 1)) = Inr p"
    and u: "u = \<lparr>header = h, payload = p, signature = orNull (segment (split_dot s) 2)\<rparr>"
    by (auto simp: decode_Inr_iff)
  from l have "split_dot s ! 1 \<in> set (split_dot s)"
    by simp
  with p u show ?thesis by auto
qed

text \<open>
  When every proof is shorter than the token that carries it, \<^verbatim>\<open>isValid\<close> returns on
  every token: the length of the proof decreases from call to call.
\<close>

lemma isValid_returns_bounded:
  assumes "shrinking e"
  shows "(case prf' (payload u) of None \<Rightarrow> 0 | Some q \<Rightarrow> length q) < n
     \<Longrightarrow> \<exists>r. isValid e u = Some r"
proof (induction n arbitrary: u)
  case 0
  then show ?case by simp
next
  case (Suc n)
  show ?case
  proof (cases "signatureVerifies e u \<and> truthy (prf' (payload u))")
    case False
    then show ?thesis
      by (subst isValid_unfold) auto
  next
    case True
    then obtain q where q: "prf' (payload u) = Some q" and ne: "q \<noteq> []"
      by (auto simp: truthy_def split: option.splits)
    show ?thesis
    proof (cases "decode e q")
      case (Inl err)
      with True q show ?thesis
        by (subst isValid_unfold) simp
    next
      case (Inr p)
      have "(case prf' (payload p) of None \<Rightarrow> 0 | Some q' \<Rightarrow> length q') < length q"
      proof (cases "prf' (payload p)")
        case None
        with ne show ?thesis by simp
      next
        case (Some q')
        with assms Inr show ?thesis
          by (auto simp: shrinking_def)
      qed
      moreover from Suc.prems q have "length q \<le> n" by simp
      ultimately have "(case prf' (payload p) of None \<Rightarrow> 0 | Some q' \<Rightarrow> length q') < n"
        by simp
      from Suc.IH [OF this] obtain r where "isValid e p = Some r" ..
      with True q Inr show ?thesis
        by (subst isValid_unfold) simp
    qed
  qed
qed

lemma deepEnv_fields [simp]:
  "parsePayload deepEnv = (\<lambda>s. Some (deepPayload s))"
  "parseHeader deepEnv = (\<lambda>s. if s = ''H'' then Some demoHeader else None)"
  "urlDecode deepEnv = Some" "urlEncode deepEnv = (\<lambda>s. s)"
  "makeUrlUnsafe deepEnv = (\<lambda>s. s)"
  "verifySignedData deepEnv = (\<lambda>dat did sig. sig = ''signed:'' @ did)"
  by (simp_all add: deepEnv_def)

lemma deepEnv_shrinking: "shrinking deepEnv"
  unfolding shrinking_def
proof (intro allI impI)
  fix s u q
  assume a: "decode deepEnv s = Inr u \<and> prf' (payload u) = Some q"
  then obtain seg where seg: "seg \<in> set (split_dot s)"
    and p: "parseSegment deepEnv (parsePayload deepEnv) (Some seg) = Inr (payload u)"
    using decode_payload_segment by blast
  from p have "payload u = deepPayload seg"
    by (simp add: parseSegment_def)
  with a have "21 \<le> length seg" and "q = ''H.'' @ drop 21 seg @ ''.signed:did:key:zA''"
    by (auto simp: deepPayload_def demoPayload_def split: if_splits)
  then have "length q < length seg"
    by simp
  with split_dot_segment_length [OF seg] show "length q < length s"
    by simp
qed

lemma rootEnv_shrinking: "shrinking rootEnv"
  unfolding shrinking_def
proof (intro allI impI)
  fix s u q
  assume a: "decode rootEnv s = Inr u \<and> prf' (payload u) = Some q"
  then obtain seg where p: "parseSegment rootEnv (parsePayload rootEnv) (Some seg) = Inr (payload u)"
    using decode_payload_segment by blast
  then have "payload u = rootPayload"
    by (auto simp: parseSegment_def rootEnv_def split: if_splits)
  with a show "length q < length s"
    by (simp add: rootPayload_def demoPayload_def)
qed

lemma deepEnv_decode:
  "decode deepEnv (''H.'' @ replicate m (CHR ''a'') @ ''.signed:did:key:zA'') =
     Inr \<lparr>header = demoHeader, payload = deepPayload (replicate m (CHR ''a'')),
          signature = Some ''signed:did:key:zA''\<rparr>"
proof -
  have "CHR ''.'' \<notin> set (replicate m (CHR ''a''))" by simp
  then have "split_dot (replicate m (CHR ''a'') @ CHR ''.'' # ''signed:did:key:zA'')
      = [replicate m (CHR ''a''), ''signed:did:key:zA'']"
    by (simp add: split_dot_append)
  then have "split_dot (''H.'' @ replicate m (CHR ''a'') @ ''.signed:did:key:zA'')
      = [''H'', replicate m (CHR ''a''), ''signed:did:key:zA'']"
    by simp
  then show ?thesis
    by (simp add: decode_def Let_def parseSegment_def orNull_def truthy_def)
qed

lemma deepToken_verifies: "signatureVerifies deepEnv (deepToken n)"
  by (simp add: signatureVerifies_def deepToken_def deepPayload_def demoPayload_def orString_def)

lemma deepToken_proof:
  "prf' (payload (deepToken 0)) = None"
  "prf' (payload (deepToken (Suc n))) =
     Some (''H.'' @ replicate (21 * n) (CHR ''a'') @ ''.signed:did:key:zA'')"
  by (simp_all add: deepToken_def deepPayload_def demoPayload_def)

lemma deepToken_decode:
  "decode deepEnv (the (prf' (payload (deepToken (Suc n))))) = Inr (deepToken n)"
  by (simp only: deepToken_proof option.sel deepEnv_decode) (simp add: deepToken_def)

lemma deepToken_chain: "proofChain deepEnv (deepToken n) (deepChain n)"
proof (induction n)
  case 0
  show ?case by (simp add: deepToken_proof truthy_def)
next
  case (Suc n)
  have "truthy (prf' (payload (deepToken (Suc n))))"
    by (simp add: deepToken_proof truthy_def)
  with Suc.IH deepToken_decode [of n] show ?case by simp
qed

lemma deepChain_valid:
  "list_all (signatureVerifies deepEnv) (deepToken n # deepChain n)
   \<and> continuous (deepToken n # deepChain n)"
proof (induction n)
  case 0
  show ?case by (simp add: deepToken_verifies)
next
  case (Suc n)
  have "aud (payload (deepToken n)) = iss (payload (deepToken (Suc n)))"
    by (simp add: deepToken_def deepPayload_def demoPayload_def)
  with Suc.IH show ?case by (simp add: deepToken_verifies)
qed

lemma isValid_deepToken: "isValid deepEnv (deepToken n) = Some (Inr True)"
  using isValid_on_chain [OF deepToken_chain, of n] deepChain_valid [of n] by simp

text \<open>
  Claim C8, as stated: \<^verbatim>\<open>isValid\<close> imposes a maximum recursion depth. It imposes none:
  in an environment where every proof is shorter than the token that carries it, there
  is for every \<open>n\<close> a token with a proof chain of \<open>n\<close> links, and \<^verbatim>\<open>isValid\<close> walks the
  chain to its end and returns true.
\<close>

theorem isValid_unbounded_counterexample:
  "shrinking deepEnv
   \<and> (\<forall>n. length (deepChain n) = n
          \<and> proofChain deepEnv (deepToken n) (deepChain n)
          \<and> isValid deepEnv (deepToken n) = Some (Inr True))"
proof -
  have "length (deepChain n) = n" for n
    by (induction n) simp_all
  with deepEnv_shrinking deepToken_chain isValid_deepToken show ?thesis
    by blast
qed

text \<open>
  Claim C8, amended. \<^verbatim>\<open>isValid\<close> imposes no maximum recursion depth: it calls itself once
  for each proof link, whatever the depth. For every token validation terminates all the
  same, because every proof is strictly shorter than the encoded token that carries it;
  no encoded chain refers to itself. On a proof chain that ends in a token without a
  proof, the result is the conjunction of the checks of all the levels, the deepest one
  included.
\<close>

theorem isValid_terminates_without_depth_bound:
  assumes "shrinking e"
  shows "(\<exists>r. isValid e u = Some r)
       \<and> (\<forall>ps. proofChain e u ps \<longrightarrow>
             isValid e u =
               Some (Inr (list_all (signatureVerifies e) (u # ps) \<and> continuous (u # ps))))"
proof -
  have "\<exists>r. isValid e u = Some r"
    using isValid_returns_bounded [OF assms, of u] by blast
  then show ?thesis
    by (simp add: isValid_on_chain)
qed

text \<open>The forged signature of the proof, one level down, makes the token invalid.\<close>

theorem isValid_terminates_without_depth_bound_witness:
  "(\<exists>r. isValid rootEnv forgedLeafToken = Some r)
   \<and> isValid rootEnv forgedLeafToken = Some (Inr False)"
proof -
  let ?forged = "\<lparr>header = demoHeader, payload = rootPayload, signature = Some ''forged''\<rparr>"
  have d: "decode rootEnv ''H.P.forged'' = Inr ?forged"
    by (simp add: rootEnv_def decode_def Let_def parseSegment_def orNull_def truthy_def)
  have c: "proofChain rootEnv forgedLeafToken [?forged]"
    using d by (simp add: forgedLeafToken_def truthy_def)
      (simp add: rootPayload_def demoPayload_def truthy_def)
  have f: "\<not> signatureVerifies rootEnv ?forged"
    by (simp add: signatureVerifies_def rootEnv_def rootPayload_def demoPayload_def orString_def)
  note t = isValid_terminates_without_depth_bound [OF rootEnv_shrinking, of forgedLeafToken]
  from t have r: "\<exists>r. isValid rootEnv forgedLeafToken = Some r"
    by blast
  from t c have "isValid rootEnv forgedLeafToken =
      Some (Inr (list_all (signatureVerifies rootEnv) [forgedLeafToken, ?forged]
                 \<and> continuous [forgedLeafToken, ?forged]))"
    by blast
  with f have "isValid rootEnv forgedLeafToken = Some (Inr False)"
    by simp
  with r show ?thesis by simp
qed

section \<open>The root issuer\<close>

lemma extractPayload_JString:
  "extractPayload e (JString s) level =
     (case parseSegment e (parseJSON e) (segment (split_dot s) 1) of
        Inl err \<Rightarrow> Inl (InvalidUCAN level (JString s))
      | Inr p \<Rightarrow> Inr p)"
  by (simp add: extractPayload_def)

text \<open>Whether the parsing throws does not depend on the level; the error carries it.\<close>

lemma extractPayload_level:
  "extractPayload e v level =
     (case extractPayload e v 0 of Inl err \<Rightarrow> Inl (InvalidUCAN level v) | Inr p \<Rightarrow> Inr p)"
  by (simp add: extractPayload_def split: json.splits sum.splits)

lemma rootIssuer_unfold:
  "rootIssuer e v level =
     (case extractPayload e v 0 of
        Inl err \<Rightarrow> Some (Inl (InvalidUCAN level v))
      | Inr p \<Rightarrow>
          (case getProperty p ''prf'' of
             Inl err \<Rightarrow> Some (Inl err)
           | Inr prf \<Rightarrow>
               if truthyValue prf then rootIssuer e (the prf) (level + 1)
               else (case getProperty p ''iss'' of
                       Inl err \<Rightarrow> Some (Inl err)
                     | Inr issValue \<Rightarrow> Some (Inr issValue))))"
  by (subst rootIssuer.simps, subst extractPayload_level) (simp split: sum.splits)

text \<open>
  What holds of the claim. On an encoded token whose payloads all parse, down to one
  without a proof, \<^verbatim>\<open>rootIssuer\<close> returns the property \<^verbatim>\<open>iss\<close> of the deepest payload,
  at whatever level the call starts.
\<close>

lemma rootIssuer_payloadChain:
  "payloadChain e s ps \<Longrightarrow>
     rootIssuer e (JString s) level = Some (getProperty (last ps) ''iss'')"
proof (induction e s ps arbitrary: level rule: payloadChain.induct)
  case (1 e s)
  then show ?case by simp
next
  case (2 e s p)
  then have a: "extractPayload e (JString s) 0 = Inr p"
    and f: "case getProperty p ''prf'' of Inl err \<Rightarrow> False | Inr v \<Rightarrow> \<not> truthyValue v"
    by (simp_all add: extractPayload_JString)
  from f obtain v where v: "getProperty p ''prf'' = Inr v" "\<not> truthyValue v"
    by (auto split: sum.splits)
  then have "p \<noteq> JNull" by auto
  then obtain i where "getProperty p ''iss'' = Inr i"
    by (cases p) simp_all
  with a v show ?case
    by (subst rootIssuer_unfold) simp
next
  case (3 e s p q ps)
  from "3.prems" have a: "extractPayload e (JString s) 0 = Inr p"
    by (simp add: extractPayload_JString)
  from "3.prems" obtain t where t: "getProperty p ''prf'' = Inr (Some (JString t))" "t \<noteq> []"
    and c: "payloadChain e t (q # ps)"
    by (auto split: sum.splits option.splits json.splits)
  from "3.IH" [OF t(1) refl refl c, of "level + 1"] a t show ?case
    by (subst rootIssuer_unfold) simp
qed

text \<open>
  When the parsing throws at depth \<open>d\<close>, the error carries the level of the call plus
  \<open>d\<close>.
\<close>

lemma rootIssuer_malformedAt:
  "malformedAt e v d bad \<Longrightarrow> rootIssuer e v level = Some (Inl (InvalidUCAN (level + d) bad))"
proof (induction d arbitrary: v level)
  case 0
  then show ?case
    by (subst rootIssuer_unfold) (auto simp: isl_def)
next
  case (Suc d)
  from Suc.prems obtain p w where a: "extractPayload e v 0 = Inr p"
    and g: "getProperty p ''prf'' = Inr w" and t: "truthyValue w"
    and m: "malformedAt e (the w) d bad"
    by (auto split: sum.splits)
  from Suc.IH [OF m, of "level + 1"] a g t show ?case
    by (subst rootIssuer_unfold) simp
qed

lemma chainEnv_parse:
  "extractPayload chainEnv (JString ''H.A.S'') 0 =
     Inr (payloadJSON (demoPayload ''did:key:zA'' ''did:key:zZ'' 0 5000 (Some ''H.B.S'')))"
  "extractPayload chainEnv (JString ''H.B.S'') 0 =
     Inr (payloadJSON (demoPayload ''did:key:zB'' ''did:key:zA'' 0 5000 (Some ''H.C.S'')))"
  "extractPayload chainEnv (JString ''H.C.S'') 0 =
     Inr (payloadJSON (demoPayload ''did:key:zC'' ''did:key:zB'' 0 5000 None))"
  "extractPayload chainEnv (JString ''H.D.S'') 0 =
     Inr (payloadJSON (demoPayload ''did:key:zD'' ''did:key:zZ'' 0 5000 (Some ''H.E.S'')))"
  "extractPayload chainEnv (JString ''H.E.S'') 0 =
     Inr (payloadJSON (demoPayload ''did:key:zE'' ''did:key:zD'' 0 5000 (Some ''H.X.S'')))"
  "extractPayload chainEnv (JString ''H.X.S'') 0 = Inl (InvalidUCAN 0 (JString ''H.X.S''))"
  by (simp_all add: extractPayload_JString chainEnv_def parseSegment_def)

lemma payloadJSON_properties [simp]:
  "getProperty (payloadJSON (demoPayload i a n x p)) ''prf'' =
     Inr (Some (case p of None \<Rightarrow> JNull | Some q \<Rightarrow> JString q))"
  "getProperty (payloadJSON (demoPayload i a n x p)) ''iss'' = Inr (Some (JString i))"
  by (simp_all add: payloadJSON_def demoPayload_def)

text \<open>
  On the chain of three levels the result is the issuer of the third token; when the
  text of the proof of the proof is not JSON, the depth in the error is 2.
\<close>

lemma rootIssuer_chainEnv:
  "rootIssuer chainEnv (JString ''H.A.S'') 0 = Some (Inr (Some (JString ''did:key:zC'')))"
  "rootIssuer chainEnv (JString ''H.D.S'') 0 = Some (Inl (InvalidUCAN 2 (JString ''H.X.S'')))"
proof -
  have c: "rootIssuer chainEnv (JString ''H.C.S'') level = Some (Inr (Some (JString ''did:key:zC'')))"
    for level
    by (subst rootIssuer_unfold) (simp add: chainEnv_parse)
  have b: "rootIssuer chainEnv (JString ''H.B.S'') level = Some (Inr (Some (JString ''did:key:zC'')))"
    for level
    by (subst rootIssuer_unfold) (simp add: chainEnv_parse c)
  show "rootIssuer chainEnv (JString ''H.A.S'') 0 = Some (Inr (Some (JString ''did:key:zC'')))"
    by (subst rootIssuer_unfold) (simp add: chainEnv_parse b)
  have "malformedAt chainEnv (JString ''H.D.S'') 2 (JString ''H.X.S'')"
    by (simp add: numeral_2_eq_2 chainEnv_parse)
  from rootIssuer_malformedAt [OF this, of 0]
  show "rootIssuer chainEnv (JString ''H.D.S'') 0 = Some (Inl (InvalidUCAN 2 (JString ''H.X.S'')))"
    by simp
qed

lemma nullEnv_parse:
  "extractPayload nullEnv (JString ''H.N.S'') 0 = Inr JNull"
  "extractPayload nullEnv (JString ''H.O.S'') 0 = Inr (JObject [])"
  "extractPayload nullEnv (JString ''H.F.S'') 0 =
     Inr (JObject [(''iss'', JString ''did:key:zF''), (''prf'', JString ''H.G.S'')])"
  "extractPayload nullEnv (JString ''H.G.S'') 0 =
     Inr (JObject [(''iss'', JString ''did:key:zG''), (''prf'', JString ''H.N.S'')])"
  by (simp_all add: extractPayload_JString nullEnv_def parseSegment_def)

text \<open>
  Claim C6: when a payload fails to parse at recursion depth \<open>d\<close>, \<^verbatim>\<open>rootIssuer\<close> fails
  with the error that carries \<open>d\<close>. The code does so only for what is thrown inside the
  \<^verbatim>\<open>try\<close> of \<^verbatim>\<open>extractPayload\<close>. A payload whose text is the JSON text \<^verbatim>\<open>null\<close> is
  returned by \<^verbatim>\<open>extractPayload\<close>, and \<^verbatim>\<open>p.prf\<close> then throws a \<^verbatim>\<open>TypeError\<close> that carries
  no depth, at depth 0 as at depth 2; a payload that is the empty object makes
  \<^verbatim>\<open>rootIssuer\<close> return \<^verbatim>\<open>undefined\<close> and throw nothing.
\<close>

theorem rootIssuer_null_payload_no_depth:
  "rootIssuer nullEnv (JString ''H.N.S'') 0 = Some (Inl TypeError)
   \<and> rootIssuer nullEnv (JString ''H.F.S'') 0 = Some (Inl TypeError)
   \<and> rootIssuer nullEnv (JString ''H.O.S'') 0 = Some (Inr None)"
proof -
  have n: "rootIssuer nullEnv (JString ''H.N.S'') level = Some (Inl TypeError)" for level
    by (subst rootIssuer_unfold) (simp add: nullEnv_parse)
  have g: "rootIssuer nullEnv (JString ''H.G.S'') level = Some (Inl TypeError)" for level
    by (subst rootIssuer_unfold) (simp add: nullEnv_parse n)
  have "rootIssuer nullEnv (JString ''H.F.S'') 0 = Some (Inl TypeError)"
    by (subst rootIssuer_unfold) (simp add: nullEnv_parse g)
  moreover have "rootIssuer nullEnv (JString ''H.O.S'') 0 = Some (Inr None)"
    by (subst rootIssuer_unfold) (simp add: nullEnv_parse)
  ultimately show ?thesis
    using n [of 0] by simp
qed

end
